theory Spec2Isabelle
  imports Main "HOL-Library.Sublist"
begin

text \<open>
  A model of the resume-to-portfolio service: the \<open>POST\<close> handler of the generate
  route, in its two versions, the \<open>GET\<close> handler of the history route, the two
  provider factories and the two storage providers. The model provider, the PDF parser,
  the CAPTCHA service, the rate limiter, the stores, the clock and the random sources are
  collaborators: what they answer is an input, what is asked of them is logged, and what
  is written to the stores is kept in an explicit state.
\<close>

section \<open>String primitives of the route handler\<close>

text \<open>
  Strings are lists of code units; only code units below 256 are represented, so the
  ECMAScript white space that \<open>String.prototype.trim\<close> removes is, in this range,
  TAB, LF, VT, FF, CR, SPACE and NBSP.
\<close>

definition isWhiteSpace :: "char \<Rightarrow> bool" where
  "isWhiteSpace c = (of_char c \<in> {9, 10, 11, 12, 13, 32, 160 :: nat})"

definition trim :: "string \<Rightarrow> string" where
  "trim s = rev (dropWhile isWhiteSpace (rev (dropWhile isWhiteSpace s)))"

text \<open>\<open>s.includes(t)\<close>: \<open>t\<close> occurs in \<open>s\<close> at some position.\<close>

fun js_includes :: "string \<Rightarrow> string \<Rightarrow> bool" where
  "js_includes [] t = (t = [])"
| "js_includes (x # xs) t = (prefix t (x # xs) \<or> js_includes xs t)"

text \<open>\<open>s.split(c)\<close> for a one-character separator; the result is never empty.\<close>

fun js_split :: "char \<Rightarrow> string \<Rightarrow> string list" where
  "js_split c [] = [[]]"
| "js_split c (x # xs) =
     (if x = c then [] # js_split c xs
      else (case js_split c xs of [] \<Rightarrow> [[x]] | p # ps \<Rightarrow> (x # p) # ps))"

text \<open>\<open>xs.join(sep)\<close>.\<close>

fun js_join :: "string \<Rightarrow> string list \<Rightarrow> string" where
  "js_join sep [] = []"
| "js_join sep [x] = x"
| "js_join sep (x # y # ys) = x @ sep @ js_join sep (y # ys)"

text \<open>
  \<open>find_sub n s\<close> cuts \<open>s\<close> at the leftmost occurrence of \<open>n\<close>, returning what is
  before and what is after it.
\<close>

fun find_sub :: "string \<Rightarrow> string \<Rightarrow> (string \<times> string) option" where
  "find_sub n [] = (if n = [] then Some ([], []) else None)"
| "find_sub n (x # xs) =
     (if prefix n (x # xs) then Some ([], drop (length n) (x # xs))
      else map_option (\<lambda>(b, a). (x # b, a)) (find_sub n xs))"

text \<open>
  \<open>text.match(/```label\n([\s\S]*?)\n```/)\<close>, returning capture group 1. The regular
  expression is an opening literal, a lazy run of arbitrary characters and a closing
  literal. A backtracking matcher tries start positions from the left and, at a start
  where the opening matches, takes the first closing literal after it. If the leftmost
  opening has no closing literal after it, no later opening has one either, so the match
  is decided at the leftmost opening.
\<close>

definition fence_open :: "string \<Rightarrow> string" where
  "fence_open label = ''```'' @ label @ ''\<newline>''"

definition fence_close :: string where
  "fence_close = ''\<newline>```''"

definition match_fence :: "string \<Rightarrow> string \<Rightarrow> string option" where
  "match_fence label text =
     (case find_sub (fence_open label) text of
        None \<Rightarrow> None
      | Some (pre, rest) \<Rightarrow>
          (case find_sub fence_close rest of
             None \<Rightarrow> None
           | Some (inner, post) \<Rightarrow> Some inner))"

definition cleanJSON :: "string \<Rightarrow> string" where
  "cleanJSON text = (case match_fence ''json'' text of Some m \<Rightarrow> m | None \<Rightarrow> text)"

definition cleanHTML :: "string \<Rightarrow> string" where
  "cleanHTML text = (case match_fence ''html'' text of Some m \<Rightarrow> m | None \<Rightarrow> text)"

text \<open>\<open>image.name.split('.').pop() || 'jpg'\<close>.\<close>

definition imageExtension :: "string \<Rightarrow> string" where
  "imageExtension name =
     (let e = last (js_split (CHR ''.'') name) in if e = [] then ''jpg'' else e)"


section \<open>Data model\<close>

type_synonym buffer = string

text \<open>An uploaded \<open>File\<close>: its name, its media type and its bytes.\<close>

record js_file =
  file_name :: string
  file_type :: string
  file_bytes :: buffer

text \<open>
  The request: \<open>req.ip\<close> and the fields of the multipart form, already read by
  \<open>req.formData()\<close>. A field that is absent is \<open>None\<close>.
\<close>

record request =
  req_ip :: "string option"
  form_file :: "js_file option"
  form_image :: "js_file option"
  form_template :: "string option"
  form_recaptchaToken :: string

text \<open>The variables of \<open>process.env\<close> that the provider factories read.\<close>

record env =
  AI_PROVIDER :: "string option"
  GEMINI_API_KEY :: "string option"
  CEREBRAS_API_KEY :: "string option"
  CEREBRAS_MODEL_ID :: "string option"
  STORAGE_PROVIDER :: "string option"
  BLOB_READ_WRITE_TOKEN :: "string option"
  cwd :: string

datatype ai_provider = GeminiProvider string | CerebrasProvider string string

datatype storage_provider = LocalStorageProvider string string | VercelBlobProvider string

datatype json =
    JNull | JBool bool | JNum int | JStr string
  | JArr "json list" | JObj "(string \<times> json) list"

text \<open>
  The two \<open>POST\<close> handlers of the generate route: \<open>UploadFirst\<close> uploads the image
  before it renders and rejects above 35000 characters, \<open>RenderFirst\<close> renders before
  it uploads anything and rejects above 15000.
\<close>

datatype variant = UploadFirst | RenderFirst

datatype image_section = ProfileImage string | NoProfileImage

text \<open>
  The three prompts. The fixed prose of each template literal is left out: a constructor
  holds the values interpolated into it. The rendering prompt holds the creative
  variation and the design seed (first handler only), the template identifier, the
  profile-image paragraph and the structured data.
\<close>

datatype prompt =
    ValidationPrompt string
  | StructuringPrompt string
  | GenerationPrompt "(string \<times> string) option" string image_section json

record history_record =
  hr_id :: string
  hr_url :: string
  hr_template :: string
  hr_createdAt :: string
  hr_fileName :: string
  hr_hasImage :: bool

record metadata =
  md_id :: string
  md_createdAt :: string
  md_template :: string
  md_version :: string
  md_ip :: string
  md_assets :: "string list"
  md_hasImage :: bool
  md_fileName :: string
  md_storageProvider :: string

datatype content = Html string | Bytes buffer | JsonDoc metadata

text \<open>
  What the handler asks of its collaborators, in the order it asks. An upload is logged
  with the path, the content and the media type handed to the storage provider.
\<close>

datatype event =
    RateLimit string
  | Recaptcha string
  | ParsePdf
  | ModelCall prompt
  | Upload string content string
  | HistoryRead string
  | HistoryWrite string nat

text \<open>
  The state outside the handler: the stored objects by path, each with its media type,
  the key-value store with the expiry in seconds that the last write of a key gave it,
  and the log of the calls made.
\<close>

record state =
  files :: "string \<rightharpoonup> (content \<times> string)"
  kv :: "string \<rightharpoonup> (history_record list \<times> nat)"
  trace :: "event list"

text \<open>
  The answers of the collaborators during one request. \<open>Inl m\<close> is a call that throws
  with message \<open>m\<close>. \<open>generateText\<close> is the answer of the configured model
  provider to a prompt, \<open>pdf_pages\<close> gives the decoded text runs of each page,
  \<open>JSON_parse\<close> is the built-in parser, \<open>random_index\<close> is
  \<open>Math.floor(Math.random() * 5)\<close>, \<open>storage_error\<close> is the failure, if any, of
  writing a path, \<open>blob_url\<close> the URL the blob store gives a path, and
  \<open>path_join\<close> is the built-in \<open>path.join\<close> applied to its arguments.
\<close>

record world =
  ratelimit_limit :: "string \<Rightarrow> string + bool"
  recaptcha_success :: "string \<Rightarrow> string + bool"
  pdf_pages :: "buffer \<Rightarrow> string + string list list"
  generateText :: "prompt \<Rightarrow> string + string"
  JSON_parse :: "string \<Rightarrow> string + json"
  randomUUID :: string
  randomSeed :: string
  random_index :: nat
  now_metadata :: string
  now_record :: string
  storage_error :: "string \<Rightarrow> string option"
  blob_url :: "string \<Rightarrow> string"
  redis_get_error :: "string \<Rightarrow> string option"
  redis_set_error :: "string \<Rightarrow> string option"
  path_join :: "string list \<Rightarrow> string"

datatype reason =
    TooManyRequests | CaptchaFailed | MissingFile | ExtractionFailed
  | TooShort | TooManyPages | TooLong | NotAResume

datatype outcome = Success string | Rejected reason | Thrown string

datatype response = Json_url string | Json_error string nat


section \<open>Provider factories\<close>

definition AIProviderFactory_createProvider :: "env \<Rightarrow> string \<Rightarrow> string + ai_provider" where
  "AIProviderFactory_createProvider e providerType =
     (if providerType = ''gemini'' then
        (case GEMINI_API_KEY e of
           None \<Rightarrow> Inl ''GEMINI_API_KEY environment variable is not set.''
         | Some apiKey \<Rightarrow>
             if apiKey = [] then Inl ''GEMINI_API_KEY environment variable is not set.''
             else Inr (GeminiProvider apiKey))
      else if providerType = ''cerebras'' then
        (case CEREBRAS_API_KEY e of
           None \<Rightarrow> Inl ''CEREBRAS_API_KEY environment variable is not set.''
         | Some apiKey \<Rightarrow>
             if apiKey = [] then Inl ''CEREBRAS_API_KEY environment variable is not set.''
             else Inr (CerebrasProvider apiKey
                    (case CEREBRAS_MODEL_ID e of
                       None \<Rightarrow> ''llama3.3-70b''
                     | Some modelId \<Rightarrow> if modelId = [] then ''llama3.3-70b'' else modelId)))
      else Inl (''Unknown AI provider: '' @ providerType))"

definition AIProviderFactory_getDefaultProvider :: "env \<Rightarrow> string + ai_provider" where
  "AIProviderFactory_getDefaultProvider e =
     AIProviderFactory_createProvider e
       (case AI_PROVIDER e of None \<Rightarrow> ''cerebras'' | Some t \<Rightarrow> if t = [] then ''cerebras'' else t)"

definition StorageFactory_createProvider :: "env \<Rightarrow> world \<Rightarrow> string + storage_provider" where
  "StorageFactory_createProvider e w =
     (let type = (case STORAGE_PROVIDER e of
                    None \<Rightarrow> ''local'' | Some t \<Rightarrow> if t = [] then ''local'' else t)
      in if type = ''vercel-blob'' then
           (case BLOB_READ_WRITE_TOKEN e of
              None \<Rightarrow> Inl ''BLOB_READ_WRITE_TOKEN environment variable is not set.''
            | Some token \<Rightarrow>
                if token = [] then Inl ''BLOB_READ_WRITE_TOKEN environment variable is not set.''
                else Inr (VercelBlobProvider token))
         else if type = ''local'' then
           Inr (LocalStorageProvider (path_join w [cwd e, ''public'', ''portfolios''])
                  ''/portfolios'')
         else if type = ''cloudflare-r2'' then
           Inl ''Cloudflare R2 provider not yet implemented. Use 'vercel-blob' or 'local'.''
         else Inl (''Unknown storage provider: '' @ type))"

definition StorageFactory_getDefaultProvider :: "env \<Rightarrow> world \<Rightarrow> string + storage_provider" where
  "StorageFactory_getDefaultProvider e w = StorageFactory_createProvider e w"


section \<open>Storage providers\<close>

fun getName :: "storage_provider \<Rightarrow> string" where
  "getName (LocalStorageProvider baseDir baseUrl) = ''Local Storage''"
| "getName (VercelBlobProvider token) = ''Vercel Blob''"

fun getPublicUrl :: "storage_provider \<Rightarrow> string \<Rightarrow> string" where
  "getPublicUrl (LocalStorageProvider baseDir baseUrl) filePath = baseUrl @ ''/'' @ filePath"
| "getPublicUrl (VercelBlobProvider token) path = path"

text \<open>
  Where an upload lands: at \<open>path.join(this.baseDir, filePath)\<close> on the local disk, at
  the path in the blob store.
\<close>

fun storageKey :: "storage_provider \<Rightarrow> world \<Rightarrow> string \<Rightarrow> string" where
  "storageKey (LocalStorageProvider baseDir baseUrl) w filePath = path_join w [baseDir, filePath]"
| "storageKey (VercelBlobProvider token) w path = path"

text \<open>The URL an upload returns: the public URL locally, the URL of the new blob remotely.\<close>

fun uploadedUrl :: "storage_provider \<Rightarrow> world \<Rightarrow> string \<Rightarrow> string" where
  "uploadedUrl (LocalStorageProvider baseDir baseUrl) w filePath =
     getPublicUrl (LocalStorageProvider baseDir baseUrl) filePath"
| "uploadedUrl (VercelBlobProvider token) w path = blob_url w path"

text \<open>
  The media type kept with an upload: none on the local disk, where the argument is
  ignored; the given one, or \<open>text/html\<close> when none is given, in the blob store.
\<close>

fun storedType :: "storage_provider \<Rightarrow> string \<Rightarrow> string" where
  "storedType (LocalStorageProvider baseDir baseUrl) contentType = []"
| "storedType (VercelBlobProvider token) contentType =
     (if contentType = [] then ''text/html'' else contentType)"


section \<open>The stages of the handler\<close>

text \<open>
  A stage returns \<open>Inl\<close> of the outcome that ends the request, or \<open>Inr\<close> of what the
  next stage needs, and the state it leaves. A thrown exception ends the request where
  it is thrown: the \<open>catch\<close> block only turns it into a response.
\<close>

type_synonym 'a step = "(outcome + 'a) \<times> state"

definition andThen :: "'a step \<Rightarrow> ('a \<Rightarrow> state \<Rightarrow> 'b step) \<Rightarrow> 'b step" where
  "andThen r k = (case r of (Inl out, s) \<Rightarrow> (Inl out, s) | (Inr a, s) \<Rightarrow> k a s)"

definition logEvent :: "event \<Rightarrow> state \<Rightarrow> state" where
  "logEvent e s = s\<lparr>trace := trace s @ [e]\<rparr>"

definition clientId :: "request \<Rightarrow> string" where
  "clientId req = (case req_ip req of None \<Rightarrow> ''127.0.0.1'' | Some ip \<Rightarrow> ip)"

definition template :: "request \<Rightarrow> string" where
  "template req =
     (case form_template req of
        None \<Rightarrow> ''elegant-serif'' | Some t \<Rightarrow> if t = [] then ''elegant-serif'' else t)"

definition admission :: "world \<Rightarrow> request \<Rightarrow> state \<Rightarrow> js_file step" where
  "admission w req s =
     (let s1 = logEvent (RateLimit (clientId req)) s in
      case ratelimit_limit w (clientId req) of
        Inl m \<Rightarrow> (Inl (Thrown m), s1)
      | Inr rateLimitSuccess \<Rightarrow>
          if \<not> rateLimitSuccess then (Inl (Rejected TooManyRequests), s1)
          else
            (let s2 = logEvent (Recaptcha (form_recaptchaToken req)) s1 in
             (case recaptcha_success w (form_recaptchaToken req) of
                Inl m \<Rightarrow> (Inl (Thrown m), s2)
              | Inr success \<Rightarrow>
                  if \<not> success then (Inl (Rejected CaptchaFailed), s2)
                  else (case form_file req of
                          None \<Rightarrow> (Inl (Rejected MissingFile), s2)
                        | Some f \<Rightarrow> (Inr f, s2)))))"

definition parsePdfBuffer :: "world \<Rightarrow> buffer \<Rightarrow> string + (string \<times> nat)" where
  "parsePdfBuffer w fileBuffer =
     (case pdf_pages w fileBuffer of
        Inl m \<Rightarrow> Inl m
      | Inr pages \<Rightarrow>
          Inr (js_join ''\<newline>'' (map (js_join '' '') pages), length pages))"

definition extraction :: "world \<Rightarrow> js_file \<Rightarrow> state \<Rightarrow> (string \<times> nat) step" where
  "extraction w f s =
     (let s1 = logEvent ParsePdf s in
      case parsePdfBuffer w (file_bytes f) of
        Inl m \<Rightarrow> (Inl (Thrown m), s1)
      | Inr (resumeText, pageCount) \<Rightarrow>
          if resumeText = [] then (Inl (Rejected ExtractionFailed), s1)
          else (Inr (resumeText, pageCount), s1))"

fun maxTextLength :: "variant \<Rightarrow> nat" where
  "maxTextLength UploadFirst = 35000"
| "maxTextLength RenderFirst = 15000"

definition preValidation :: "variant \<Rightarrow> string \<Rightarrow> nat \<Rightarrow> reason option" where
  "preValidation v resumeText pageCount =
     (let textLength = length (trim resumeText) in
      if textLength < 100 then Some TooShort
      else if pageCount > 10 then Some TooManyPages
      else if textLength > maxTextLength v then Some TooLong
      else None)"

definition preValidationStep :: "variant \<Rightarrow> string \<Rightarrow> nat \<Rightarrow> state \<Rightarrow> unit step" where
  "preValidationStep v resumeText pageCount s =
     (case preValidation v resumeText pageCount of
        Some r \<Rightarrow> (Inl (Rejected r), s)
      | None \<Rightarrow> (Inr (), s))"

definition classification :: "world \<Rightarrow> string \<Rightarrow> state \<Rightarrow> unit step" where
  "classification w resumeText s =
     (let validationPrompt = ValidationPrompt (take 2000 resumeText);
          s1 = logEvent (ModelCall validationPrompt) s in
      case generateText w validationPrompt of
        Inl m \<Rightarrow> (Inl (Thrown m), s1)
      | Inr validationResult \<Rightarrow>
          let isValidResume = js_includes (trim validationResult) ''VALID_RESUME'' in
          if \<not> isValidResume then (Inl (Rejected NotAResume), s1) else (Inr (), s1))"

definition structuring :: "world \<Rightarrow> string \<Rightarrow> state \<Rightarrow> json step" where
  "structuring w resumeText s =
     (let structuringPrompt = StructuringPrompt resumeText;
          s1 = logEvent (ModelCall structuringPrompt) s in
      case generateText w structuringPrompt of
        Inl m \<Rightarrow> (Inl (Thrown m), s1)
      | Inr structuredDataText \<Rightarrow>
          (case JSON_parse w (cleanJSON structuredDataText) of
             Inl m \<Rightarrow> (Inl (Thrown m), s1)
           | Inr structuredData \<Rightarrow> (Inr structuredData, s1)))"

definition uploadFile ::
  "storage_provider \<Rightarrow> world \<Rightarrow> string \<Rightarrow> content \<Rightarrow> string \<Rightarrow> state \<Rightarrow> string step" where
  "uploadFile sp w path c contentType s =
     (let s1 = logEvent (Upload path c contentType) s in
      case storage_error w path of
        Some m \<Rightarrow> (Inl (Thrown m), s1)
      | None \<Rightarrow>
          (Inr (uploadedUrl sp w path),
           s1\<lparr>files := (files s1)(storageKey sp w path \<mapsto> (c, storedType sp contentType))\<rparr>))"

definition uploadJSON ::
  "storage_provider \<Rightarrow> world \<Rightarrow> string \<Rightarrow> metadata \<Rightarrow> state \<Rightarrow> string step" where
  "uploadJSON sp w path data s = uploadFile sp w path (JsonDoc data) ''application/json'' s"


text \<open>
  The image upload. The first handler guards it with \<open>image && imageBuffer &&
  imageExtension\<close>, the second with \<open>image && imageBuffer\<close>; a \<open>Buffer\<close> is always
  truthy. It returns \<open>uploadedImageUrl\<close> and \<open>assets\<close>.
\<close>

definition uploadImage ::
  "variant \<Rightarrow> storage_provider \<Rightarrow> world \<Rightarrow> string \<Rightarrow> js_file option \<Rightarrow> state
     \<Rightarrow> (string option \<times> string list) step" where
  "uploadImage v sp w portfolioPrefix profileImage s =
     (case profileImage of
        None \<Rightarrow> (Inr (None, []), s)
      | Some img \<Rightarrow>
          (let ext = imageExtension (file_name img) in
           if v = UploadFirst \<and> ext = [] then (Inr (None, []), s)
           else
             andThen
               (uploadFile sp w (portfolioPrefix @ ''/assets/profile.'' @ ext)
                  (Bytes (file_bytes img)) (file_type img) s)
               (\<lambda>url s'. (Inr (Some url, [''profile.'' @ ext]), s'))))"

definition creativeVariations :: "string list" where
  "creativeVariations =
     [''Experiment with unique color combinations and unexpected typography choices.'',
      ''Try an unconventional layout approach that breaks traditional design patterns.'',
      ''Focus on creating a memorable visual identity through distinctive design elements.'',
      ''Push creative boundaries with bold design decisions and artistic flair.'',
      ''Create a unique interpretation that stands out from typical portfolio websites.'']"

text \<open>
  The profile-image paragraph of the rendering prompt: the \<open>img\<close> tag with the given
  reference when the reference is truthy, the instruction to leave images out otherwise.
\<close>

definition imageSection :: "string option \<Rightarrow> image_section" where
  "imageSection ref =
     (case ref of
        None \<Rightarrow> NoProfileImage
      | Some u \<Rightarrow> if u = [] then NoProfileImage else ProfileImage u)"

definition generationPrompt ::
  "variant \<Rightarrow> world \<Rightarrow> string \<Rightarrow> string option \<Rightarrow> json \<Rightarrow> prompt" where
  "generationPrompt v w tmpl ref structuredData =
     GenerationPrompt
       (case v of
          UploadFirst \<Rightarrow> Some (creativeVariations ! (random_index w mod 5), randomSeed w)
        | RenderFirst \<Rightarrow> None)
       tmpl (imageSection ref) structuredData"

definition rendering :: "world \<Rightarrow> prompt \<Rightarrow> state \<Rightarrow> string step" where
  "rendering w p s =
     (let s1 = logEvent (ModelCall p) s in
      case generateText w p of
        Inl m \<Rightarrow> (Inl (Thrown m), s1)
      | Inr generated \<Rightarrow> (Inr (cleanHTML generated), s1))"

definition historyKey :: "request \<Rightarrow> string" where
  "historyKey req = ''portfolio:history:'' @ clientId req"

definition historyTTL :: nat where
  "historyTTL = 30 * 24 * 60 * 60"

text \<open>\<open>[portfolioRecord, ...existingHistory].slice(0, 10)\<close>.\<close>

definition updatedHistory :: "history_record \<Rightarrow> history_record list \<Rightarrow> history_record list" where
  "updatedHistory portfolioRecord existingHistory = take 10 (portfolioRecord # existingHistory)"

text \<open>\<open>redis.get(key) || []\<close>: a missing key reads as the empty history.\<close>

definition redis_get :: "state \<Rightarrow> string \<Rightarrow> history_record list" where
  "redis_get s key = (case kv s key of None \<Rightarrow> [] | Some (h, ex) \<Rightarrow> h)"

text \<open>\<open>redis.set(key, value, { ex })\<close> replaces the value of the key and its expiry.\<close>

definition redis_set :: "string \<Rightarrow> history_record list \<Rightarrow> nat \<Rightarrow> state \<Rightarrow> state" where
  "redis_set key val ex s = s\<lparr>kv := (kv s)(key \<mapsto> (val, ex))\<rparr>"

definition historyUpdate :: "world \<Rightarrow> string \<Rightarrow> history_record \<Rightarrow> state \<Rightarrow> unit step" where
  "historyUpdate w key portfolioRecord s =
     (let s1 = logEvent (HistoryRead key) s in
      case redis_get_error w key of
        Some m \<Rightarrow> (Inl (Thrown m), s1)
      | None \<Rightarrow>
          (let existingHistory = redis_get s1 key;
               s2 = logEvent (HistoryWrite key historyTTL) s1 in
           (case redis_set_error w key of
              Some m \<Rightarrow> (Inl (Thrown m), s2)
            | None \<Rightarrow>
                (Inr (), redis_set key (updatedHistory portfolioRecord existingHistory)
                           historyTTL s2))))"

definition mkMetadata ::
  "storage_provider \<Rightarrow> world \<Rightarrow> request \<Rightarrow> js_file \<Rightarrow> string list \<Rightarrow> metadata" where
  "mkMetadata sp w req f assets =
     \<lparr> md_id = randomUUID w, md_createdAt = now_metadata w, md_template = template req,
       md_version = ''1.0.0'', md_ip = clientId req, md_assets = assets,
       md_hasImage = (form_image req \<noteq> None), md_fileName = file_name f,
       md_storageProvider = getName sp \<rparr>"

definition mkRecord :: "world \<Rightarrow> request \<Rightarrow> js_file \<Rightarrow> string \<Rightarrow> history_record" where
  "mkRecord w req f htmlUrl =
     \<lparr> hr_id = randomUUID w, hr_url = htmlUrl, hr_template = template req,
       hr_createdAt = now_record w, hr_fileName = file_name f,
       hr_hasImage = (form_image req \<noteq> None) \<rparr>"

text \<open>The metadata document and the history record, the same in both handlers.\<close>

definition saveMetadataAndHistory ::
  "storage_provider \<Rightarrow> world \<Rightarrow> request \<Rightarrow> js_file \<Rightarrow> string \<Rightarrow> string list \<Rightarrow> state
     \<Rightarrow> string step" where
  "saveMetadataAndHistory sp w req f htmlUrl assets s =
     andThen
       (uploadJSON sp w (''portfolios/'' @ randomUUID w @ ''/metadata.json'')
          (mkMetadata sp w req f assets) s)
       (\<lambda>metadataUrl s1.
          andThen (historyUpdate w (historyKey req) (mkRecord w req f htmlUrl) s1)
            (\<lambda>u s2. (Inr htmlUrl, s2)))"

text \<open>After structuring, first handler: image, rendering, page, metadata, history.\<close>

definition persistUploadFirst ::
  "storage_provider \<Rightarrow> world \<Rightarrow> request \<Rightarrow> js_file \<Rightarrow> json \<Rightarrow> state \<Rightarrow> string step" where
  "persistUploadFirst sp w req f structuredData s =
     (let portfolioPrefix = ''portfolios/'' @ randomUUID w in
      andThen (uploadImage UploadFirst sp w portfolioPrefix (form_image req) s)
        (\<lambda>(uploadedImageUrl, assets) s1.
           andThen
             (rendering w
                (generationPrompt UploadFirst w (template req) uploadedImageUrl structuredData) s1)
             (\<lambda>generatedHtml s2.
                andThen
                  (uploadFile sp w (portfolioPrefix @ ''/index.html'') (Html generatedHtml)
                     ''text/html'' s2)
                  (\<lambda>htmlUrl s3. saveMetadataAndHistory sp w req f htmlUrl assets s3))))"

text \<open>After structuring, second handler: rendering, page, image, metadata, history.\<close>

definition persistRenderFirst ::
  "storage_provider \<Rightarrow> world \<Rightarrow> request \<Rightarrow> js_file \<Rightarrow> json \<Rightarrow> state \<Rightarrow> string step" where
  "persistRenderFirst sp w req f structuredData s =
     (let imagePath =
            map_option (\<lambda>img. ''./assets/profile.'' @ imageExtension (file_name img))
              (form_image req);
          portfolioPrefix = ''portfolios/'' @ randomUUID w in
      andThen
        (rendering w (generationPrompt RenderFirst w (template req) imagePath structuredData) s)
        (\<lambda>generatedHtml s1.
           andThen
             (uploadFile sp w (portfolioPrefix @ ''/index.html'') (Html generatedHtml)
                ''text/html'' s1)
             (\<lambda>htmlUrl s2.
                andThen (uploadImage RenderFirst sp w portfolioPrefix (form_image req) s2)
                  (\<lambda>(uploadedImageUrl, assets) s3.
                     saveMetadataAndHistory sp w req f htmlUrl assets s3))))"

fun persist ::
  "variant \<Rightarrow> storage_provider \<Rightarrow> world \<Rightarrow> request \<Rightarrow> js_file \<Rightarrow> json \<Rightarrow> state \<Rightarrow> string step" where
  "persist UploadFirst = persistUploadFirst"
| "persist RenderFirst = persistRenderFirst"

definition finish :: "string step \<Rightarrow> outcome \<times> state" where
  "finish r = (case r of (Inl out, s) \<Rightarrow> (out, s) | (Inr url, s) \<Rightarrow> (Success url, s))"

text \<open>
  The body of the handler once both providers exist, from the rate limiter to the
  returned URL. It returns how the request ended and the state it leaves.
\<close>

definition run ::
  "variant \<Rightarrow> storage_provider \<Rightarrow> world \<Rightarrow> request \<Rightarrow> state \<Rightarrow> outcome \<times> state" where
  "run v sp w req s =
     finish
       (andThen (admission w req s)
          (\<lambda>f s1.
             andThen (extraction w f s1)
               (\<lambda>(resumeText, pageCount) s2.
                  andThen (preValidationStep v resumeText pageCount s2)
                    (\<lambda>u s3.
                       andThen (classification w resumeText s3)
                         (\<lambda>u s4.
                            andThen (structuring w resumeText s4)
                              (\<lambda>structuredData s5.
                                 persist v sp w req f structuredData s5))))))"

fun status :: "reason \<Rightarrow> nat" where
  "status TooManyRequests = 429"
| "status ExtractionFailed = 500"
| "status r = 400"

fun message :: "variant \<Rightarrow> reason \<Rightarrow> string" where
  "message v TooManyRequests = ''Too many requests. Please try again later.''"
| "message v CaptchaFailed = ''reCAPTCHA verification failed.''"
| "message v MissingFile = ''No file uploaded.''"
| "message v ExtractionFailed = ''Could not extract text from PDF.''"
| "message v TooShort =
     ''The PDF content is too short to be a resume. Please upload a complete resume document.''"
| "message v TooManyPages =
     ''The PDF is too long to be a resume (max 5 pages). Resumes should be concise and focused.''"
| "message UploadFirst TooLong =
     ''The PDF contains too much text to be a resume. Please upload a standard 1-5 page resume.''"
| "message RenderFirst TooLong =
     ''The PDF contains too much text to be a resume. Please upload a standard 1-3 page resume.''"
| "message v NotAResume =
     ''The uploaded PDF doesn't appear to be a resume or CV. Please upload a valid resume document.''"

fun respond :: "variant \<Rightarrow> outcome \<Rightarrow> response" where
  "respond v (Success url) = Json_url url"
| "respond v (Rejected r) = Json_error (message v r) (status r)"
| "respond v (Thrown m) =
     Json_error (if m = [] then ''An internal server error occurred.'' else m) 500"

text \<open>The handler: the two factories inside the \<open>try\<close>, then the body.\<close>

definition POST :: "variant \<Rightarrow> env \<Rightarrow> world \<Rightarrow> request \<Rightarrow> state \<Rightarrow> response \<times> state" where
  "POST v e w req s =
     (case AIProviderFactory_getDefaultProvider e of
        Inl m \<Rightarrow> (respond v (Thrown m), s)
      | Inr aiProvider \<Rightarrow>
          (case StorageFactory_getDefaultProvider e w of
             Inl m \<Rightarrow> (respond v (Thrown m), s)
           | Inr storageProvider \<Rightarrow>
               (case run v storageProvider w req s of
                  (out, s') \<Rightarrow> (respond v out, s'))))"

text \<open>The history route: one read of the client's key.\<close>

definition GET_history :: "world \<Rightarrow> request \<Rightarrow> state \<Rightarrow> response option \<times> history_record list \<times> state" where
  "GET_history w req s =
     (let s1 = logEvent (HistoryRead (historyKey req)) s in
      case redis_get_error w (historyKey req) of
        Some m \<Rightarrow>
          (Some (Json_error (if m = [] then ''Failed to fetch history'' else m) 500), [], s1)
      | None \<Rightarrow> (None, redis_get s1 (historyKey req), s1))"


section \<open>Example inputs\<close>

text \<open>
  A configured environment, a request from one client with a PDF (and, when given, a
  profile image), and a world whose PDF has one page holding \<open>n\<close> letters and whose
  model answers the three prompts with the given texts.
\<close>

definition example_env :: env where
  "example_env =
     \<lparr> AI_PROVIDER = None, GEMINI_API_KEY = None, CEREBRAS_API_KEY = Some ''key'',
       CEREBRAS_MODEL_ID = None, STORAGE_PROVIDER = None, BLOB_READ_WRITE_TOKEN = None,
       cwd = ''/app'' \<rparr>"

definition example_storage :: storage_provider where
  "example_storage = LocalStorageProvider ''/app/public/portfolios'' ''/portfolios''"

definition example_file :: js_file where
  "example_file =
     \<lparr> file_name = ''resume.pdf'', file_type = ''application/pdf'', file_bytes = ''%PDF'' \<rparr>"

definition example_image :: "string \<Rightarrow> js_file" where
  "example_image name = \<lparr> file_name = name, file_type = ''image/png'', file_bytes = ''PNG'' \<rparr>"

definition example_request :: "string \<Rightarrow> js_file option \<Rightarrow> request" where
  "example_request tmpl img =
     \<lparr> req_ip = Some ''203.0.113.7'', form_file = Some example_file, form_image = img,
       form_template = Some tmpl, form_recaptchaToken = ''token'' \<rparr>"

definition example_parse :: "string \<Rightarrow> string + json" where
  "example_parse t = (if t = ''{}'' then Inr (JObj []) else Inl ''Unexpected token'')"

definition example_model :: "string \<Rightarrow> string \<Rightarrow> prompt \<Rightarrow> string + string" where
  "example_model classified structured p =
     (case p of
        ValidationPrompt t \<Rightarrow> Inr classified
      | StructuringPrompt t \<Rightarrow> Inr structured
      | GenerationPrompt r t i d \<Rightarrow> Inr ''<html></html>'')"

definition example_world :: "string list list \<Rightarrow> string \<Rightarrow> string \<Rightarrow> world" where
  "example_world pages classified structured =
     \<lparr> ratelimit_limit = (\<lambda>i. Inr True), recaptcha_success = (\<lambda>t. Inr True),
       pdf_pages = (\<lambda>b. Inr pages),
       generateText = example_model classified structured,
       JSON_parse = example_parse, randomUUID = ''u1'', randomSeed = ''k3x'',
       random_index = 2, now_metadata = ''2025-01-01T00:00:00.000Z'',
       now_record = ''2025-01-01T00:00:00.001Z'', storage_error = (\<lambda>p. None),
       blob_url = (\<lambda>p. ''https://blob.example/'' @ p), redis_get_error = (\<lambda>k. None),
       redis_set_error = (\<lambda>k. None), path_join = js_join ''/'' \<rparr>"

text \<open>A state in which the example client already has ten records, due to expire in 5 seconds.\<close>

definition example_old_record :: history_record where
  "example_old_record =
     \<lparr> hr_id = ''u0'', hr_url = ''/portfolios/portfolios/u0/index.html'',
       hr_template = ''bento-grid'', hr_createdAt = ''2024-12-31T00:00:00.000Z'',
       hr_fileName = ''old.pdf'', hr_hasImage = False \<rparr>"

definition example_full_state :: state where
  "example_full_state =
     \<lparr> files = Map.empty,
       kv = [''portfolio:history:203.0.113.7'' \<mapsto> (replicate 10 example_old_record, 5)],
       trace = [] \<rparr>"

definition letters :: "nat \<Rightarrow> string" where
  "letters n = replicate n (CHR ''a'')"

definition empty_state :: state where
  "empty_state = \<lparr> files = Map.empty, kv = Map.empty, trace = [] \<rparr>"

definition modelCalls :: "event list \<Rightarrow> event list" where
  "modelCalls tr = filter (\<lambda>e. case e of ModelCall p \<Rightarrow> True | _ \<Rightarrow> False) tr"

definition uploads :: "event list \<Rightarrow> event list" where
  "uploads tr = filter (\<lambda>e. case e of Upload p c t \<Rightarrow> True | _ \<Rightarrow> False) tr"

definition historyWrites :: "event list \<Rightarrow> event list" where
  "historyWrites tr = filter (\<lambda>e. case e of HistoryWrite k ex \<Rightarrow> True | _ \<Rightarrow> False) tr"

text \<open>The calls a run added to the log.\<close>

definition newEvents :: "state \<Rightarrow> state \<Rightarrow> event list" where
  "newEvents s s' = drop (length (trace s)) (trace s')"

text \<open>A text holds a fenced block with the given label.\<close>

definition has_fence :: "string \<Rightarrow> string \<Rightarrow> bool" where
  "has_fence label text = (\<exists>pre inner post. text = pre @ fence_open label @ inner @ fence_close @ post)"


section \<open>How far a request gets\<close>

text \<open>
  The conditions under which a request passes each gate, read off the handler: the rate
  limiter and the CAPTCHA check succeed and a file is present; the PDF parses to a
  non-empty text; the heuristic checks pass; the classifier's answer is accepted; the
  structuring answer parses.
\<close>

definition admitted :: "world \<Rightarrow> request \<Rightarrow> js_file \<Rightarrow> bool" where
  "admitted w req f =
     (ratelimit_limit w (clientId req) = Inr True \<and>
      recaptcha_success w (form_recaptchaToken req) = Inr True \<and>
      form_file req = Some f)"

definition reachesPreValidation :: "world \<Rightarrow> request \<Rightarrow> js_file \<Rightarrow> string \<Rightarrow> nat \<Rightarrow> bool" where
  "reachesPreValidation w req f resumeText pageCount =
     (admitted w req f \<and> parsePdfBuffer w (file_bytes f) = Inr (resumeText, pageCount) \<and>
      resumeText \<noteq> [])"

definition reachesClassification ::
  "variant \<Rightarrow> world \<Rightarrow> request \<Rightarrow> js_file \<Rightarrow> string \<Rightarrow> nat \<Rightarrow> bool" where
  "reachesClassification v w req f resumeText pageCount =
     (reachesPreValidation w req f resumeText pageCount \<and>
      preValidation v resumeText pageCount = None)"

definition reachesStructuring ::
  "variant \<Rightarrow> world \<Rightarrow> request \<Rightarrow> js_file \<Rightarrow> string \<Rightarrow> nat \<Rightarrow> bool" where
  "reachesStructuring v w req f resumeText pageCount =
     (reachesClassification v w req f resumeText pageCount \<and>
      (case generateText w (ValidationPrompt (take 2000 resumeText)) of
         Inl m \<Rightarrow> False
       | Inr validationResult \<Rightarrow> js_includes (trim validationResult) ''VALID_RESUME''))"

definition reachesPersistence ::
  "variant \<Rightarrow> world \<Rightarrow> request \<Rightarrow> js_file \<Rightarrow> string \<Rightarrow> nat \<Rightarrow> json \<Rightarrow> bool" where
  "reachesPersistence v w req f resumeText pageCount structuredData =
     (reachesStructuring v w req f resumeText pageCount \<and>
      (case generateText w (StructuringPrompt resumeText) of
         Inl m \<Rightarrow> False
       | Inr structuredDataText \<Rightarrow>
           JSON_parse w (cleanJSON structuredDataText) = Inr structuredData))"

definition admissionEvents :: "request \<Rightarrow> event list" where
  "admissionEvents req = [RateLimit (clientId req), Recaptcha (form_recaptchaToken req)]"

text \<open>A step that writes to neither store and asks for no upload and no history write.\<close>

definition quiet :: "state \<Rightarrow> state \<Rightarrow> bool" where
  "quiet s s' = (files s' = files s \<and> kv s' = kv s \<and>
     (\<exists>evs. trace s' = trace s @ evs \<and> uploads evs = [] \<and> historyWrites evs = []))"


text \<open>The paths of the stored image, of the stored page and of the metadata document.\<close>

definition profilePath :: "world \<Rightarrow> js_file \<Rightarrow> string" where
  "profilePath w img =
     ''portfolios/'' @ randomUUID w @ ''/assets/profile.'' @ imageExtension (file_name img)"

definition indexPath :: "world \<Rightarrow> string" where
  "indexPath w = ''portfolios/'' @ randomUUID w @ ''/index.html''"

definition metadataPath :: "world \<Rightarrow> string" where
  "metadataPath w = ''portfolios/'' @ randomUUID w @ ''/metadata.json''"

text \<open>The calls made by a request that reaches persistence, up to the structuring call.\<close>

definition callsBeforePersistence :: "request \<Rightarrow> string \<Rightarrow> event list" where
  "callsBeforePersistence req resumeText =
     admissionEvents req @
       [ParsePdf, ModelCall (ValidationPrompt (take 2000 resumeText)),
        ModelCall (StructuringPrompt resumeText)]"


section \<open>Strings: containment, trimming, fences\<close>

lemma js_includes_sublist: "js_includes s t = sublist t s"
  by (induction s) (auto simp: sublist_Cons_right)

lemma find_sub_None: "find_sub n s = None \<longleftrightarrow> \<not> sublist n s"
  by (induction s) (auto simp: sublist_Cons_right)

lemma find_sub_Some: "find_sub n s = Some (b, a) \<Longrightarrow> s = b @ n @ a"
proof (induction s arbitrary: b)
  case Nil
  then show ?case by (auto split: if_splits)
next
  case (Cons x xs)
  show ?case
  proof (cases "prefix n (x # xs)")
    case True
    then obtain zs where zs: "x # xs = n @ zs" by (auto elim: prefixE)
    have "find_sub n (x # xs) = Some ([], drop (length n) (x # xs))"
      using True by simp
    with Cons.prems have ba: "b = []" "a = drop (length n) (x # xs)" by simp_all
    have "drop (length n) (x # xs) = zs" by (simp add: zs)
    with ba zs show ?thesis by simp
  next
    case False
    with Cons.prems obtain b' where "find_sub n xs = Some (b', a)" "b = x # b'"
      by auto
    with Cons.IH show ?thesis by auto
  qed
qed

lemma find_sub_leftmost:
  "find_sub n s = Some (b, a) \<Longrightarrow> s = b' @ n @ a' \<Longrightarrow> length b \<le> length b'"
proof (induction s arbitrary: b b')
  case Nil
  then show ?case by (auto split: if_splits)
next
  case (Cons x xs)
  show ?case
  proof (cases "prefix n (x # xs)")
    case True
    then have "find_sub n (x # xs) = Some ([], drop (length n) (x # xs))" by simp
    with Cons.prems(1) have "b = []" by simp
    then show ?thesis by simp
  next
    case False
    with Cons.prems(1) obtain b0 where b0: "find_sub n xs = Some (b0, a)" "b = x # b0"
      by auto
    have "b' \<noteq> []"
    proof
      assume "b' = []"
      with Cons.prems(2) have "prefix n (x # xs)" by simp
      with False show False ..
    qed
    then obtain b1 where b1: "b' = x # b1" "xs = b1 @ n @ a'"
      using Cons.prems(2) by (cases b') auto
    from Cons.IH[OF b0(1) b1(2)] b0(2) b1(1) show ?thesis by simp
  qed
qed

lemma drop_append_le: "k \<le> length xs \<Longrightarrow> drop k (xs @ ys) = drop k xs @ ys"
  by simp

lemma match_fence_Some:
  assumes "match_fence l t = Some inner"
  shows "\<exists>pre post. t = pre @ fence_open l @ inner @ fence_close @ post"
proof -
  from assms obtain pre rest post where
    f: "find_sub (fence_open l) t = Some (pre, rest)" "find_sub fence_close rest = Some (inner, post)"
    by (auto simp: match_fence_def split: option.splits)
  from find_sub_Some[OF f(1)] find_sub_Some[OF f(2)]
  have "t = pre @ fence_open l @ inner @ fence_close @ post" by simp
  then show ?thesis by blast
qed

lemma match_fence_None: "match_fence l t = None \<longleftrightarrow> \<not> has_fence l t"
proof
  assume "match_fence l t = None"
  then consider (a) "find_sub (fence_open l) t = None"
    | (b) pre rest where "find_sub (fence_open l) t = Some (pre, rest)"
        "find_sub fence_close rest = None"
    by (auto simp: match_fence_def split: option.splits)
  then show "\<not> has_fence l t"
  proof cases
    case a
    then show ?thesis
      by (auto simp: find_sub_None has_fence_def sublist_def)
  next
    case b
    show ?thesis
    proof
      assume "has_fence l t"
      then obtain p i q where t: "t = p @ fence_open l @ i @ fence_close @ q"
        by (auto simp: has_fence_def)
      let ?k = "length pre + length (fence_open l)"
      from find_sub_leftmost[OF b(1) t] have le: "?k \<le> length (p @ fence_open l)" by simp
      from find_sub_Some[OF b(1)] have t': "t = pre @ fence_open l @ rest" .
      have "rest = drop ?k t" using t' by simp
      also have "t = (p @ fence_open l) @ (i @ fence_close @ q)" by (simp add: t)
      also have "drop ?k \<dots> = (drop ?k (p @ fence_open l) @ i) @ fence_close @ q"
        using drop_append_le[OF le] by (simp only: append_assoc)
      finally have "sublist fence_close rest" unfolding sublist_def by blast
      with b(2) show False by (simp add: find_sub_None)
    qed
  qed
next
  assume "\<not> has_fence l t"
  then show "match_fence l t = None"
    using match_fence_Some[of l t] by (cases "match_fence l t") (auto simp: has_fence_def)
qed

lemma cleanJSON_no_fence: "\<not> has_fence ''json'' t \<Longrightarrow> cleanJSON t = t"
  by (simp add: cleanJSON_def match_fence_None[symmetric])

lemma cleanJSON_fence:
  "has_fence ''json'' t \<Longrightarrow>
     \<exists>pre inner post. t = pre @ fence_open ''json'' @ inner @ fence_close @ post \<and> cleanJSON t = inner"
proof -
  assume "has_fence ''json'' t"
  then obtain inner where m: "match_fence ''json'' t = Some inner"
    using match_fence_None[of "''json''" t] by (cases "match_fence ''json'' t") auto
  from match_fence_Some[OF m] m show ?thesis by (auto simp: cleanJSON_def)
qed

lemma sublist_ws_Cons:
  assumes "isWhiteSpace c" "\<forall>x\<in>set t. \<not> isWhiteSpace x" "t \<noteq> []"
  shows "sublist t (c # s) = sublist t s"
  using assms by (cases t) (auto simp: sublist_Cons_right)

lemma sublist_dropWhile_ws:
  assumes "\<forall>x\<in>set t. \<not> isWhiteSpace x" "t \<noteq> []"
  shows "sublist t (dropWhile isWhiteSpace s) = sublist t s"
  using assms by (induction s) (auto simp: sublist_ws_Cons)

text \<open>Trimming cannot hide or create an occurrence of a text that has no white space.\<close>

lemma sublist_trim:
  assumes "\<forall>x\<in>set t. \<not> isWhiteSpace x" "t \<noteq> []"
  shows "sublist t (trim s) = sublist t s"
proof -
  have r: "\<forall>x\<in>set (rev t). \<not> isWhiteSpace x" "rev t \<noteq> []" using assms by auto
  have "sublist t (trim s) =
        sublist (rev t) (dropWhile isWhiteSpace (rev (dropWhile isWhiteSpace s)))"
    unfolding trim_def by (metis sublist_rev rev_rev_ident)
  also have "\<dots> = sublist (rev t) (rev (dropWhile isWhiteSpace s))"
    using sublist_dropWhile_ws[OF r] by simp
  also have "\<dots> = sublist t (dropWhile isWhiteSpace s)" by simp
  also have "\<dots> = sublist t s" using sublist_dropWhile_ws[OF assms] by simp
  finally show ?thesis .
qed

lemma VALID_RESUME_no_ws: "\<forall>x\<in>set ''VALID_RESUME''. \<not> isWhiteSpace x"
  by (simp add: isWhiteSpace_def)

lemma isValidResume_sublist:
  "js_includes (trim r) ''VALID_RESUME'' = sublist ''VALID_RESUME'' r"
  using sublist_trim[OF VALID_RESUME_no_ws, of r] by (simp add: js_includes_sublist)

lemma trim_letters: "trim (letters n) = letters n"
  by (simp add: trim_def letters_def isWhiteSpace_def)

lemma length_letters [simp]: "length (letters n) = n"
  by (simp add: letters_def)

lemma letters_empty [simp]: "letters n = [] \<longleftrightarrow> n = 0"
  by (simp add: letters_def)


section \<open>The stages, one by one\<close>

lemma andThen_Inl [simp]: "andThen (Inl out, s) k = (Inl out, s)"
  by (simp add: andThen_def)

lemma andThen_Inr [simp]: "andThen (Inr a, s) k = k a s"
  by (simp add: andThen_def)

lemma andThen_cases:
  "andThen r k = (x, s') \<longleftrightarrow>
     (\<exists>out. r = (Inl out, s') \<and> x = Inl out) \<or> (\<exists>a s1. r = (Inr a, s1) \<and> k a s1 = (x, s'))"
  by (cases r; cases "fst r") (auto simp: andThen_def)

lemma logEvent_simps [simp]:
  "files (logEvent e s) = files s" "kv (logEvent e s) = kv s" "trace (logEvent e s) = trace s @ [e]"
  by (simp_all add: logEvent_def)

lemma finish_simps [simp]:
  "finish (Inl out, s) = (out, s)" "finish (Inr url, s) = (Success url, s)"
  by (simp_all add: finish_def)

lemma newEvents_append [simp]: "trace s' = trace s @ evs \<Longrightarrow> newEvents s s' = evs"
  by (simp add: newEvents_def)

text \<open>What each gate returns when it is passed.\<close>

lemma admission_admitted:
  "admitted w req f \<Longrightarrow>
     \<exists>s1. admission w req s = (Inr f, s1) \<and> files s1 = files s \<and> kv s1 = kv s \<and>
       trace s1 = trace s @ admissionEvents req"
  by (simp add: admitted_def admission_def admissionEvents_def Let_def)

lemma extraction_ok:
  "parsePdfBuffer w (file_bytes f) = Inr (t, n) \<Longrightarrow> t \<noteq> [] \<Longrightarrow>
     \<exists>s1. extraction w f s = (Inr (t, n), s1) \<and> files s1 = files s \<and> kv s1 = kv s \<and>
       trace s1 = trace s @ [ParsePdf]"
  by (simp add: extraction_def Let_def)

lemma extraction_empty:
  "parsePdfBuffer w (file_bytes f) = Inr ([], n) \<Longrightarrow>
     \<exists>s1. extraction w f s = (Inl (Rejected ExtractionFailed), s1) \<and> files s1 = files s \<and> kv s1 = kv s \<and>
       trace s1 = trace s @ [ParsePdf]"
  by (simp add: extraction_def Let_def)

lemma run_upto_preValidation:
  assumes "admitted w req f" "parsePdfBuffer w (file_bytes f) = Inr (t, n)" "t \<noteq> []"
  shows "\<exists>s2. files s2 = files s \<and> kv s2 = kv s \<and>
           trace s2 = trace s @ admissionEvents req @ [ParsePdf] \<and>
           run v sp w req s =
             finish (andThen (preValidationStep v t n s2)
               (\<lambda>u s3. andThen (classification w t s3)
                  (\<lambda>u s4. andThen (structuring w t s4)
                     (\<lambda>structuredData s5. persist v sp w req f structuredData s5))))"
proof -
  from admission_admitted[OF assms(1)] obtain s1 where
    s1: "admission w req s = (Inr f, s1)" "files s1 = files s" "kv s1 = kv s"
      "trace s1 = trace s @ admissionEvents req" by blast
  from extraction_ok[OF assms(2,3)] obtain s2 where
    s2: "extraction w f s1 = (Inr (t, n), s2)" "files s2 = files s1" "kv s2 = kv s1"
      "trace s2 = trace s1 @ [ParsePdf]" by blast
  show ?thesis
    by (rule exI[of _ s2]) (simp add: run_def s1 s2)
qed

lemma run_extraction_empty:
  assumes "admitted w req f" "parsePdfBuffer w (file_bytes f) = Inr ([], n)"
  shows "\<exists>s2. files s2 = files s \<and> kv s2 = kv s \<and>
           trace s2 = trace s @ admissionEvents req @ [ParsePdf] \<and>
           run v sp w req s = (Rejected ExtractionFailed, s2)"
proof -
  from admission_admitted[OF assms(1)] obtain s1 where
    s1: "admission w req s = (Inr f, s1)" "files s1 = files s" "kv s1 = kv s"
      "trace s1 = trace s @ admissionEvents req" by blast
  from extraction_empty[OF assms(2)] obtain s2 where
    s2: "extraction w f s1 = (Inl (Rejected ExtractionFailed), s2)" "files s2 = files s1" "kv s2 = kv s1"
      "trace s2 = trace s1 @ [ParsePdf]" by blast
  show ?thesis
    by (rule exI[of _ s2]) (simp add: run_def s1 s2)
qed

lemma modelCalls_admission [simp]:
  "modelCalls (admissionEvents req @ [ParsePdf]) = []"
  by (simp add: modelCalls_def admissionEvents_def)


lemma prefix_newEvents: "prefix (trace s @ evs) (trace s') \<Longrightarrow> prefix evs (newEvents s s')"
  by (auto simp: newEvents_def prefix_def)

text \<open>Every stage only appends to the log.\<close>

lemma andThen_prefix:
  assumes "prefix (trace s) (trace (snd r))"
    and "\<And>a s1. prefix (trace s1) (trace (snd (k a s1)))"
  shows "prefix (trace s) (trace (snd (andThen r k)))"
proof (cases r)
  case (Pair x s1)
  show ?thesis
  proof (cases x)
    case (Inl out)
    with Pair assms(1) show ?thesis by simp
  next
    case (Inr a)
    with Pair assms(1) assms(2)[of s1 a] show ?thesis by (auto intro: prefix_order.trans)
  qed
qed

lemma uploadFile_trace: "trace (snd (uploadFile sp w p c ct s)) = trace s @ [Upload p c ct]"
  by (simp add: uploadFile_def Let_def split: option.splits)

lemma uploadFile_prefix: "prefix (trace s) (trace (snd (uploadFile sp w p c ct s)))"
  by (simp add: uploadFile_trace)

lemma uploadImage_prefix: "prefix (trace s) (trace (snd (uploadImage v sp w p i s)))"
  by (auto simp: uploadImage_def Let_def split: option.splits intro!: andThen_prefix uploadFile_prefix)

lemma rendering_trace: "trace (snd (rendering w p s)) = trace s @ [ModelCall p]"
  by (simp add: rendering_def Let_def split: sum.splits)

lemma rendering_prefix: "prefix (trace s) (trace (snd (rendering w p s)))"
  by (simp add: rendering_trace)

lemma historyUpdate_prefix: "prefix (trace s) (trace (snd (historyUpdate w k r s)))"
  by (simp add: historyUpdate_def Let_def redis_set_def split: option.splits)

lemma saveMetadataAndHistory_prefix:
  "prefix (trace s) (trace (snd (saveMetadataAndHistory sp w req f u a s)))"
  unfolding saveMetadataAndHistory_def uploadJSON_def
  by (intro andThen_prefix uploadFile_prefix historyUpdate_prefix) simp

lemma persistUploadFirst_prefix:
  "prefix (trace s) (trace (snd (persistUploadFirst sp w req f d s)))"
  unfolding persistUploadFirst_def Let_def
  by (intro andThen_prefix uploadImage_prefix)
     (auto intro!: andThen_prefix rendering_prefix uploadFile_prefix saveMetadataAndHistory_prefix)

lemma persistRenderFirst_prefix:
  "prefix (trace s) (trace (snd (persistRenderFirst sp w req f d s)))"
  unfolding persistRenderFirst_def Let_def
  by (intro andThen_prefix rendering_prefix uploadFile_prefix)
     (auto intro!: andThen_prefix uploadImage_prefix saveMetadataAndHistory_prefix)

lemma persist_prefix: "prefix (trace s) (trace (snd (persist v sp w req f d s)))"
  by (cases v) (simp_all add: persistUploadFirst_prefix persistRenderFirst_prefix)

lemma snd_finish [simp]: "snd (finish r) = snd r"
  by (cases r; cases "fst r") (auto simp: finish_def)

text \<open>What can end a request after the structuring call: an exception or success.\<close>

lemma structuring_not_Rejected:
  "structuring w t s = (Inl out, s') \<Longrightarrow> \<exists>m. out = Thrown m"
  by (auto simp: structuring_def Let_def split: sum.splits if_splits)

lemma uploadFile_not_Rejected:
  "uploadFile sp w p c ct s = (Inl out, s') \<Longrightarrow> \<exists>m. out = Thrown m"
  by (auto simp: uploadFile_def Let_def split: option.splits)

lemma uploadImage_not_Rejected:
  "uploadImage v sp w p i s = (Inl out, s') \<Longrightarrow> \<exists>m. out = Thrown m"
  by (auto simp: uploadImage_def Let_def andThen_cases split: option.splits if_splits
      dest: uploadFile_not_Rejected)

lemma rendering_not_Rejected:
  "rendering w p s = (Inl out, s') \<Longrightarrow> \<exists>m. out = Thrown m"
  by (auto simp: rendering_def Let_def split: sum.splits)

lemma historyUpdate_not_Rejected:
  "historyUpdate w k r s = (Inl out, s') \<Longrightarrow> \<exists>m. out = Thrown m"
  by (auto simp: historyUpdate_def Let_def split: option.splits)

lemma saveMetadataAndHistory_not_Rejected:
  "saveMetadataAndHistory sp w req f u a s = (Inl out, s') \<Longrightarrow> \<exists>m. out = Thrown m"
  by (auto simp: saveMetadataAndHistory_def uploadJSON_def andThen_cases
      dest: uploadFile_not_Rejected historyUpdate_not_Rejected)

lemma persistUploadFirst_not_Rejected:
  "persistUploadFirst sp w req f d s = (Inl out, s') \<Longrightarrow> \<exists>m. out = Thrown m"
  by (auto simp: persistUploadFirst_def Let_def andThen_cases
      dest: uploadFile_not_Rejected uploadImage_not_Rejected rendering_not_Rejected
        saveMetadataAndHistory_not_Rejected)

lemma persistRenderFirst_not_Rejected:
  "persistRenderFirst sp w req f d s = (Inl out, s') \<Longrightarrow> \<exists>m. out = Thrown m"
  by (auto simp: persistRenderFirst_def Let_def andThen_cases
      dest: uploadFile_not_Rejected uploadImage_not_Rejected rendering_not_Rejected
        saveMetadataAndHistory_not_Rejected)

lemma persist_not_Rejected:
  "persist v sp w req f d s = (Inl out, s') \<Longrightarrow> \<exists>m. out = Thrown m"
  by (cases v) (auto dest: persistUploadFirst_not_Rejected persistRenderFirst_not_Rejected)

lemma finish_Rejected:
  "finish r = (Rejected x, s') \<longleftrightarrow> r = (Inl (Rejected x), s')"
  by (cases r; cases "fst r") (auto simp: finish_def)

lemma after_structuring_not_Rejected:
  "fst (finish (andThen (structuring w t s)
          (\<lambda>structuredData s5. persist v sp w req f structuredData s5))) \<noteq> Rejected r"
proof
  let ?c = "andThen (structuring w t s) (\<lambda>structuredData s5. persist v sp w req f structuredData s5)"
  assume "fst (finish ?c) = Rejected r"
  then have "finish ?c = (Rejected r, snd (finish ?c))" by (metis prod.collapse)
  then have "?c = (Inl (Rejected r), snd (finish ?c))" by (simp only: finish_Rejected)
  then show False
    by (auto simp: andThen_cases dest: structuring_not_Rejected persist_not_Rejected)
qed

lemma classification_result:
  "generateText w (ValidationPrompt (take 2000 t)) = Inr c \<Longrightarrow>
     classification w t s =
       (if sublist ''VALID_RESUME'' (trim c) then Inr () else Inl (Rejected NotAResume),
        logEvent (ModelCall (ValidationPrompt (take 2000 t))) s)"
  by (simp add: classification_def Let_def js_includes_sublist)

lemma classification_thrown:
  "generateText w (ValidationPrompt (take 2000 t)) = Inl m \<Longrightarrow>
     classification w t s =
       (Inl (Thrown m), logEvent (ModelCall (ValidationPrompt (take 2000 t))) s)"
  by (simp add: classification_def Let_def)

lemma structuring_result:
  "generateText w (StructuringPrompt t) = Inr r \<Longrightarrow>
     structuring w t s =
       (case JSON_parse w (cleanJSON r) of Inl m \<Rightarrow> Inl (Thrown m) | Inr d \<Rightarrow> Inr d,
        logEvent (ModelCall (StructuringPrompt t)) s)"
  by (simp add: structuring_def Let_def split: sum.splits)

lemma run_upto_classification:
  assumes "reachesClassification v w req f t n"
  shows "\<exists>s2. files s2 = files s \<and> kv s2 = kv s \<and>
           trace s2 = trace s @ admissionEvents req @ [ParsePdf] \<and>
           run v sp w req s =
             finish (andThen (classification w t s2)
                  (\<lambda>u s4. andThen (structuring w t s4)
                     (\<lambda>structuredData s5. persist v sp w req f structuredData s5)))"
proof -
  from assms have a: "admitted w req f" "parsePdfBuffer w (file_bytes f) = Inr (t, n)" "t \<noteq> []"
    and pv: "preValidation v t n = None"
    by (simp_all add: reachesClassification_def reachesPreValidation_def)
  from run_upto_preValidation[OF a, of s v sp] pv show ?thesis
    by (auto simp: preValidationStep_def)
qed

lemma run_upto_structuring:
  assumes "reachesStructuring v w req f t n"
  shows "\<exists>s3. files s3 = files s \<and> kv s3 = kv s \<and>
           trace s3 = trace s @ admissionEvents req @
             [ParsePdf, ModelCall (ValidationPrompt (take 2000 t))] \<and>
           run v sp w req s =
             finish (andThen (structuring w t s3)
                     (\<lambda>structuredData s5. persist v sp w req f structuredData s5))"
proof -
  from assms have rc: "reachesClassification v w req f t n"
    by (simp add: reachesStructuring_def)
  from assms obtain c where c: "generateText w (ValidationPrompt (take 2000 t)) = Inr c"
    "sublist ''VALID_RESUME'' (trim c)"
    by (auto simp: reachesStructuring_def js_includes_sublist split: sum.splits)
  from run_upto_classification[OF rc, of s sp] obtain s2 where s2:
    "files s2 = files s" "kv s2 = kv s" "trace s2 = trace s @ admissionEvents req @ [ParsePdf]"
    "run v sp w req s =
             finish (andThen (classification w t s2)
                  (\<lambda>u s4. andThen (structuring w t s4)
                     (\<lambda>structuredData s5. persist v sp w req f structuredData s5)))"
    by blast
  show ?thesis
    by (rule exI[of _ "logEvent (ModelCall (ValidationPrompt (take 2000 t))) s2"])
       (simp add: s2 classification_result[OF c(1)] c(2))
qed

lemma run_upto_persistence:
  assumes "reachesPersistence v w req f t n d"
  shows "\<exists>s4. files s4 = files s \<and> kv s4 = kv s \<and>
           trace s4 = trace s @ admissionEvents req @
             [ParsePdf, ModelCall (ValidationPrompt (take 2000 t)),
              ModelCall (StructuringPrompt t)] \<and>
           run v sp w req s = finish (persist v sp w req f d s4)"
proof -
  from assms have rs: "reachesStructuring v w req f t n"
    by (simp add: reachesPersistence_def)
  from assms obtain r where r: "generateText w (StructuringPrompt t) = Inr r"
    "JSON_parse w (cleanJSON r) = Inr d"
    by (auto simp: reachesPersistence_def split: sum.splits)
  from run_upto_structuring[OF rs, of s sp] obtain s3 where s3:
    "files s3 = files s" "kv s3 = kv s"
    "trace s3 = trace s @ admissionEvents req @
             [ParsePdf, ModelCall (ValidationPrompt (take 2000 t))]"
    "run v sp w req s =
             finish (andThen (structuring w t s3)
                     (\<lambda>structuredData s5. persist v sp w req f structuredData s5))"
    by blast
  show ?thesis
    by (rule exI[of _ "logEvent (ModelCall (StructuringPrompt t)) s3"])
       (simp add: s3 structuring_result[OF r(1)] r(2))
qed

lemma preValidationStep_keeps:
  "preValidationStep v t n s = (r, s') \<Longrightarrow> s' = s"
  by (auto simp: preValidationStep_def split: option.splits)

lemma quiet_refl: "quiet s s"
  by (simp add: quiet_def uploads_def historyWrites_def)

lemma quiet_trans: "quiet s s1 \<Longrightarrow> quiet s1 s2 \<Longrightarrow> quiet s s2"
  by (auto simp: quiet_def uploads_def historyWrites_def)

lemma quiet_newEvents:
  "quiet s s' \<Longrightarrow> files s' = files s \<and> kv s' = kv s \<and>
     uploads (newEvents s s') = [] \<and> historyWrites (newEvents s s') = []"
  by (auto simp: quiet_def newEvents_def)

lemma quiet_logEvent:
  "uploads [e] = [] \<Longrightarrow> historyWrites [e] = [] \<Longrightarrow> quiet s (logEvent e s)"
  by (simp add: quiet_def)

lemma quiet_events [simp]:
  "uploads [RateLimit i] = []" "historyWrites [RateLimit i] = []"
  "uploads [Recaptcha t] = []" "historyWrites [Recaptcha t] = []"
  "uploads [ParsePdf] = []" "historyWrites [ParsePdf] = []"
  "uploads [ModelCall p] = []" "historyWrites [ModelCall p] = []"
  by (simp_all add: uploads_def historyWrites_def)

lemma admission_quiet: "admission w req s = (r, s') \<Longrightarrow> quiet s s'"
  by (auto simp: admission_def Let_def split: sum.splits if_splits option.splits
      intro!: quiet_logEvent quiet_trans[OF quiet_logEvent quiet_logEvent])

lemma extraction_quiet: "extraction w f s = (r, s') \<Longrightarrow> quiet s s'"
  by (auto simp: extraction_def Let_def split: sum.splits if_splits prod.splits
      intro!: quiet_logEvent)

lemma classification_quiet: "classification w t s = (r, s') \<Longrightarrow> quiet s s'"
  by (auto simp: classification_def Let_def split: sum.splits if_splits
      intro!: quiet_logEvent)


section \<open>The example inputs, evaluated\<close>

lemma example_world_simps [simp]:
  "ratelimit_limit (example_world pg c t) i = Inr True"
  "recaptcha_success (example_world pg c t) k = Inr True"
  "pdf_pages (example_world pg c t) b = Inr pg"
  "generateText (example_world pg c t) (ValidationPrompt x) = Inr c"
  "generateText (example_world pg c t) (StructuringPrompt x) = Inr t"
  "generateText (example_world pg c t) (GenerationPrompt r tm im d) = Inr ''<html></html>''"
  "JSON_parse (example_world pg c t) = example_parse"
  "randomUUID (example_world pg c t) = ''u1''"
  "randomSeed (example_world pg c t) = ''k3x''"
  "random_index (example_world pg c t) = 2"
  "now_metadata (example_world pg c t) = ''2025-01-01T00:00:00.000Z''"
  "now_record (example_world pg c t) = ''2025-01-01T00:00:00.001Z''"
  "storage_error (example_world pg c t) p = None"
  "blob_url (example_world pg c t) p = ''https://blob.example/'' @ p"
  "redis_get_error (example_world pg c t) k = None"
  "redis_set_error (example_world pg c t) k = None"
  "path_join (example_world pg c t) = js_join ''/''"
  by (simp_all add: example_world_def example_model_def)

lemma example_request_simps [simp]:
  "req_ip (example_request tm img) = Some ''203.0.113.7''"
  "form_file (example_request tm img) = Some example_file"
  "form_image (example_request tm img) = img"
  "form_template (example_request tm img) = Some tm"
  "form_recaptchaToken (example_request tm img) = ''token''"
  by (simp_all add: example_request_def)

lemma example_admitted: "admitted (example_world pg c t) (example_request tm img) example_file"
  by (simp add: admitted_def)

lemma example_parsePdfBuffer:
  "parsePdfBuffer (example_world [[x]] c t) b = Inr (x, Suc 0)"
  "parsePdfBuffer (example_world [[]] c t) b = Inr ([], Suc 0)"
  by (simp_all add: parsePdfBuffer_def)

lemma example_reachesPreValidation:
  "0 < n \<Longrightarrow> reachesPreValidation (example_world [[letters n]] c t) (example_request tm img)
     example_file (letters n) (Suc 0)"
  by (simp add: reachesPreValidation_def example_admitted example_parsePdfBuffer)

lemma preValidation_letters:
  "preValidation v (letters n) (Suc 0) =
     (if n < 100 then Some TooShort else if maxTextLength v < n then Some TooLong else None)"
  by (simp add: preValidation_def trim_letters)

lemma example_reachesClassification:
  "100 \<le> n \<Longrightarrow> n \<le> maxTextLength v \<Longrightarrow>
     reachesClassification v (example_world [[letters n]] c t) (example_request tm img)
       example_file (letters n) (Suc 0)"
  by (simp add: reachesClassification_def example_reachesPreValidation preValidation_letters)

lemma trim_VALID [simp]: "trim ''VALID_RESUME'' = ''VALID_RESUME''"
  by (simp add: trim_def isWhiteSpace_def)

lemma trim_NOT [simp]: "trim ''NOT_A_RESUME'' = ''NOT_A_RESUME''"
  by (simp add: trim_def isWhiteSpace_def)

lemma NOT_A_RESUME_rejected: "\<not> sublist ''VALID_RESUME'' ''NOT_A_RESUME''"
  by code_simp

lemma example_reachesStructuring:
  "100 \<le> n \<Longrightarrow> n \<le> maxTextLength v \<Longrightarrow>
     reachesStructuring v (example_world [[letters n]] ''VALID_RESUME'' t) (example_request tm img)
       example_file (letters n) (Suc 0)"
  by (simp add: reachesStructuring_def example_reachesClassification js_includes_sublist)

lemma cleanJSON_braces [simp]: "cleanJSON ''{}'' = ''{}''"
  by (simp add: cleanJSON_def match_fence_def fence_open_def)

lemma example_reachesPersistence:
  "100 \<le> n \<Longrightarrow> n \<le> maxTextLength v \<Longrightarrow>
     reachesPersistence v (example_world [[letters n]] ''VALID_RESUME'' ''{}'') (example_request tm img)
       example_file (letters n) (Suc 0) (JObj [])"
  by (simp add: reachesPersistence_def example_reachesStructuring example_parse_def)

lemma POST_configured:
  "AIProviderFactory_getDefaultProvider e = Inr ai \<Longrightarrow>
   StorageFactory_getDefaultProvider e w = Inr sp \<Longrightarrow>
   POST v e w req s = (respond v (fst (run v sp w req s)), snd (run v sp w req s))"
  by (simp add: POST_def split: prod.splits)

lemma example_env_providers:
  "AIProviderFactory_getDefaultProvider example_env = Inr (CerebrasProvider ''key'' ''llama3.3-70b'')"
  "StorageFactory_getDefaultProvider example_env (example_world pg c t) = Inr example_storage"
  by (simp_all add: AIProviderFactory_getDefaultProvider_def
        AIProviderFactory_createProvider_def StorageFactory_getDefaultProvider_def
        StorageFactory_createProvider_def example_env_def example_storage_def)

lemma example_POST:
  "POST v example_env (example_world pg c t) req s =
     (respond v (fst (run v example_storage (example_world pg c t) req s)),
      snd (run v example_storage (example_world pg c t) req s))"
  by (rule POST_configured[OF example_env_providers])


section \<open>Further facts about the stages and the examples\<close>

lemma example_run_not_a_resume:
  "fst (run v example_storage (example_world [[letters 120]] ''NOT_A_RESUME'' ''{}'')
        (example_request ''dark-modern'' None) s) = Rejected NotAResume"
proof -
  have rc: "reachesClassification v (example_world [[letters 120]] ''NOT_A_RESUME'' ''{}'')
       (example_request ''dark-modern'' None) example_file (letters 120) (Suc 0)"
    by (rule example_reachesClassification) (cases v; simp)+
  from run_upto_classification[OF rc, of s example_storage] show ?thesis
    by (auto simp: classification_result NOT_A_RESUME_rejected)
qed

lemma after_preValidation_only_NotAResume:
  assumes "fst (finish (andThen (classification w t s)
                  (\<lambda>u s4. andThen (structuring w t s4)
                     (\<lambda>structuredData s5. persist v sp w req f structuredData s5)))) = Rejected r"
  shows "r = NotAResume"
proof (cases "generateText w (ValidationPrompt (take 2000 t))")
  case (Inl m)
  with assms show ?thesis by (simp add: classification_thrown)
next
  case (Inr c)
  with assms after_structuring_not_Rejected show ?thesis
    by (auto simp: classification_result split: if_splits)
qed

lemma structuring_trace:
  "trace (snd (structuring w t s)) = trace s @ [ModelCall (StructuringPrompt t)]"
  by (simp add: structuring_def Let_def split: sum.splits)

lemma after_structuring_prefix:
  "prefix (trace s @ [ModelCall (StructuringPrompt t)])
     (trace (snd (andThen (structuring w t s)
        (\<lambda>structuredData s5. persist v sp w req f structuredData s5))))"
proof (cases "structuring w t s")
  case (Pair x s1)
  then have t: "trace s1 = trace s @ [ModelCall (StructuringPrompt t)]"
    using structuring_trace[of w t s] by simp
  show ?thesis
  proof (cases x)
    case (Inl out)
    with Pair t show ?thesis by simp
  next
    case (Inr d)
    with Pair t persist_prefix[of s1 v sp w req f d] show ?thesis by simp
  qed
qed

lemma sublist_VALID_wrapped: "sublist ''VALID_RESUME'' ''Answer: VALID_RESUME.''"
  by code_simp

lemma trim_wrapped [simp]: "trim '' Answer: VALID_RESUME.  '' = ''Answer: VALID_RESUME.''"
  by (simp add: trim_def isWhiteSpace_def)

lemma run_TooLong_iff:
  assumes r: "reachesPreValidation w r f resumeText pageCount"
    and "100 \<le> length (trim resumeText)" and "pageCount \<le> 10"
  shows "(fst (run v sp w r s) = Rejected TooLong)
           = (maxTextLength v < length (trim resumeText))"
proof -
  from r have a: "admitted w r f" "parsePdfBuffer w (file_bytes f) = Inr (resumeText, pageCount)"
    "resumeText \<noteq> []" by (simp_all add: reachesPreValidation_def)
  from run_upto_preValidation[OF a, of s v sp] obtain s2 where s2:
    "run v sp w r s =
           finish (andThen (preValidationStep v resumeText pageCount s2)
             (\<lambda>u s3. andThen (classification w resumeText s3)
                (\<lambda>u s4. andThen (structuring w resumeText s4)
                   (\<lambda>structuredData s5. persist v sp w r f structuredData s5))))"
    by blast
  show ?thesis
  proof (cases "maxTextLength v < length (trim resumeText)")
    case True
    with assms(2,3) have "preValidation v resumeText pageCount = Some TooLong"
      by (simp add: preValidation_def Let_def)
    with True show ?thesis by (simp add: s2 preValidationStep_def)
  next
    case False
    with assms(2,3) have pv: "preValidation v resumeText pageCount = None"
      by (simp add: preValidation_def Let_def)
    have "fst (run v sp w r s) \<noteq> Rejected TooLong"
      using after_preValidation_only_NotAResume[of w resumeText s2 v sp r f TooLong]
      by (auto simp: s2 preValidationStep_def pv)
    with False show ?thesis by simp
  qed
qed

lemma example_TooLong_iff:
  assumes "100 \<le> n"
  shows "(fst (run v example_storage (example_world [[letters n]] c t) (example_request tm img) s)
      = Rejected TooLong) = (maxTextLength v < n)"
proof -
  have r: "reachesPreValidation (example_world [[letters n]] c t) (example_request tm img)
     example_file (letters n) (Suc 0)"
    by (rule example_reachesPreValidation) (use assms in simp)
  from run_TooLong_iff[OF r, of v example_storage s] assms show ?thesis
    by (simp add: trim_letters)
qed

lemma find_sub_first:
  assumes "s = b @ n @ a" and "\<And>b' a'. s = b' @ n @ a' \<Longrightarrow> length b \<le> length b'"
  shows "find_sub n s = Some (b, a)"
proof -
  have "sublist n s" using assms(1) by (auto simp: sublist_def)
  then obtain b0 a0 where f: "find_sub n s = Some (b0, a0)"
    using find_sub_None[of n s] by (cases "find_sub n s") auto
  from find_sub_Some[OF f] have s0: "s = b0 @ n @ a0" .
  from find_sub_leftmost[OF f assms(1)] assms(2)[OF s0] have "length b0 = length b" by simp
  with s0 assms(1) have "b0 = b \<and> a0 = a" by auto
  with f show ?thesis by simp
qed

lemma match_fence_first:
  assumes "t = pre @ fence_open l @ inner @ fence_close @ post"
    and "\<And>p q. t = p @ fence_open l @ q \<Longrightarrow> length pre \<le> length p"
    and "\<And>i q. inner @ fence_close @ post = i @ fence_close @ q \<Longrightarrow> length inner \<le> length i"
  shows "match_fence l t = Some inner"
proof -
  have 1: "find_sub (fence_open l) t = Some (pre, inner @ fence_close @ post)"
    by (rule find_sub_first) (use assms(1,2) in auto)
  have 2: "find_sub fence_close (inner @ fence_close @ post) = Some (inner, post)"
    by (rule find_sub_first) (use assms(3) in auto)
  show ?thesis by (simp add: match_fence_def 1 2)
qed

lemma example_no_fence: "match_fence ''json'' ''Sorry, no data'' = None"
  by (simp add: match_fence_def fence_open_def)

lemma example_fenced: "match_fence ''json'' ''Here: ```json\<newline>{}\<newline>``` Done'' = Some ''{}''"
  by (simp add: match_fence_def fence_open_def fence_close_def)


section \<open>Requests that succeed\<close>

lemma run_Success_facts:
  assumes "run v sp w req s = (Success url, s')"
  shows "\<exists>f t n c r d.
     ratelimit_limit w (clientId req) = Inr True \<and>
     recaptcha_success w (form_recaptchaToken req) = Inr True \<and>
     form_file req = Some f \<and>
     parsePdfBuffer w (file_bytes f) = Inr (t, n) \<and> t \<noteq> [] \<and>
     preValidation v t n = None \<and>
     generateText w (ValidationPrompt (take 2000 t)) = Inr c \<and>
     js_includes (trim c) ''VALID_RESUME'' \<and>
     generateText w (StructuringPrompt t) = Inr r \<and>
     JSON_parse w (cleanJSON r) = Inr d"
  using assms
  unfolding run_def admission_def extraction_def preValidationStep_def classification_def
    structuring_def
  by (auto simp: Let_def split: sum.splits if_splits option.splits prod.splits)

lemma run_Success_reaches:
  assumes "run v sp w req s = (Success url, s')"
  shows "\<exists>f t n d. reachesPersistence v w req f t n d"
proof -
  from run_Success_facts[OF assms] obtain f t n c r d where
    "ratelimit_limit w (clientId req) = Inr True"
     "recaptcha_success w (form_recaptchaToken req) = Inr True"
     "form_file req = Some f"
     "parsePdfBuffer w (file_bytes f) = Inr (t, n)" "t \<noteq> []"
     "preValidation v t n = None"
     "generateText w (ValidationPrompt (take 2000 t)) = Inr c"
     "js_includes (trim c) ''VALID_RESUME''"
     "generateText w (StructuringPrompt t) = Inr r"
     "JSON_parse w (cleanJSON r) = Inr d"
    by blast
  then have "reachesPersistence v w req f t n d"
    by (simp add: reachesPersistence_def reachesStructuring_def reachesClassification_def
        reachesPreValidation_def admitted_def)
  then show ?thesis by blast
qed

lemma uploadFile_kv: "kv (snd (uploadFile sp w p c ct s)) = kv s"
  by (simp add: uploadFile_def Let_def split: option.splits)

lemma uploadFile_eq:
  "uploadFile sp w p c ct s = (r, s') \<Longrightarrow> kv s' = kv s \<and> trace s' = trace s @ [Upload p c ct]"
  using uploadFile_kv[of sp w p c ct s] uploadFile_trace[of sp w p c ct s] by simp

lemma uploadImage_kv: "uploadImage v sp w p i s = (r, s') \<Longrightarrow> kv s' = kv s"
  by (auto simp: uploadImage_def Let_def andThen_cases split: option.splits if_splits
      dest: uploadFile_eq)

lemma rendering_eq:
  "rendering w p s = (r, s') \<Longrightarrow> kv s' = kv s \<and> files s' = files s \<and> trace s' = trace s @ [ModelCall p]"
  by (auto simp: rendering_def Let_def split: sum.splits)

lemma redis_get_logEvent [simp]: "redis_get (logEvent e s) k = redis_get s k"
  by (simp add: redis_get_def)

lemma historyUpdate_Inr:
  "historyUpdate w k r s = (Inr u, s') \<Longrightarrow>
     kv s' = (kv s)(k \<mapsto> (updatedHistory r (redis_get s k), historyTTL)) \<and>
     files s' = files s \<and>
     trace s' = trace s @ [HistoryRead k, HistoryWrite k historyTTL]"
  by (auto simp: historyUpdate_def Let_def redis_set_def split: option.splits)

lemma saveMetadataAndHistory_Inr:
  assumes "saveMetadataAndHistory sp w req f htmlUrl assets s = (Inr url, s')"
  shows "url = htmlUrl \<and>
     kv s' = (kv s)(historyKey req \<mapsto>
        (updatedHistory (mkRecord w req f htmlUrl) (redis_get s (historyKey req)), historyTTL))"
  using assms
  by (auto simp: saveMetadataAndHistory_def uploadJSON_def andThen_cases
      simp: redis_get_def
      dest!: uploadFile_eq historyUpdate_Inr)

lemma persistUploadFirst_Inr:
  assumes "persistUploadFirst sp w req f d s = (Inr url, s')"
  shows "kv s' = (kv s)(historyKey req \<mapsto>
        (updatedHistory (mkRecord w req f url) (redis_get s (historyKey req)), historyTTL))"
  using assms
  by (auto simp: persistUploadFirst_def Let_def andThen_cases redis_get_def
      dest!: uploadImage_kv rendering_eq uploadFile_eq saveMetadataAndHistory_Inr)

lemma persistRenderFirst_Inr:
  assumes "persistRenderFirst sp w req f d s = (Inr url, s')"
  shows "kv s' = (kv s)(historyKey req \<mapsto>
        (updatedHistory (mkRecord w req f url) (redis_get s (historyKey req)), historyTTL))"
  using assms
  by (auto simp: persistRenderFirst_def Let_def andThen_cases redis_get_def
      dest!: uploadImage_kv rendering_eq uploadFile_eq saveMetadataAndHistory_Inr)

lemma persist_Inr:
  "persist v sp w req f d s = (Inr url, s') \<Longrightarrow>
   kv s' = (kv s)(historyKey req \<mapsto>
        (updatedHistory (mkRecord w req f url) (redis_get s (historyKey req)), historyTTL))"
  by (cases v) (auto dest: persistUploadFirst_Inr persistRenderFirst_Inr)

lemma finish_Success:
  "finish r = (Success url, s') \<longleftrightarrow> r = (Inr url, s') \<or> r = (Inl (Success url), s')"
  by (cases r; cases "fst r") (auto simp: finish_def)

lemma run_Success_kv:
  assumes "run v sp w req s = (Success url, s')"
  shows "\<exists>f. form_file req = Some f \<and>
     kv s' = (kv s)(historyKey req \<mapsto>
        (updatedHistory (mkRecord w req f url) (redis_get s (historyKey req)), historyTTL))"
proof -
  from run_Success_reaches[OF assms] obtain f t n d where
    rp: "reachesPersistence v w req f t n d" by blast
  from run_upto_persistence[OF rp, of s sp] obtain s4 where s4:
    "kv s4 = kv s" "run v sp w req s = finish (persist v sp w req f d s4)" by blast
  from assms s4(2) have "persist v sp w req f d s4 = (Inr url, s')"
    by (auto simp: finish_Success dest: persist_not_Rejected)
  from persist_Inr[OF this] s4(1) have
    "kv s' = (kv s)(historyKey req \<mapsto>
        (updatedHistory (mkRecord w req f url) (redis_get s (historyKey req)), historyTTL))"
    by (simp add: redis_get_def)
  moreover from rp have "form_file req = Some f"
    by (simp add: reachesPersistence_def reachesStructuring_def reachesClassification_def
        reachesPreValidation_def admitted_def)
  ultimately show ?thesis by blast
qed

lemma take10_Cons_take10: "take 10 (r # take 10 xs) = take 10 (r # xs)"
  by (simp add: take_Cons')

lemma inserts_from_any:
  "foldl (\<lambda>h r. updatedHistory r h) (take 10 h) rs = take 10 (rev rs @ h)"
proof (induction rs arbitrary: h)
  case Nil
  then show ?case by simp
next
  case (Cons r rs)
  have "updatedHistory r (take 10 h) = take 10 (r # h)"
    by (simp add: updatedHistory_def take10_Cons_take10)
  with Cons.IH[of "r # h"] show ?case by simp
qed

lemma inserts_from_empty: "foldl (\<lambda>h r. updatedHistory r h) [] rs = take 10 (rev rs)"
  using inserts_from_any[of "[]" rs] by simp

lemma updatedHistory_full:
  "10 \<le> length h \<Longrightarrow> updatedHistory r h = r # take 9 h"
  by (simp add: updatedHistory_def take_Cons')

lemma take9_butlast: "length h = 10 \<Longrightarrow> take 9 h = butlast h"
  by (simp add: butlast_conv_take)

lemma historyWrites_simps [simp]:
  "historyWrites [] = []"
  "historyWrites (xs @ ys) = historyWrites xs @ historyWrites ys"
  "historyWrites (RateLimit i # xs) = historyWrites xs"
  "historyWrites (Recaptcha t # xs) = historyWrites xs"
  "historyWrites (ParsePdf # xs) = historyWrites xs"
  "historyWrites (ModelCall p # xs) = historyWrites xs"
  "historyWrites (Upload q qc qt # xs) = historyWrites xs"
  "historyWrites (HistoryRead k # xs) = historyWrites xs"
  "historyWrites (HistoryWrite k ex # xs) = HistoryWrite k ex # historyWrites xs"
  by (simp_all add: historyWrites_def)

lemma uploadImage_events:
  "uploadImage v sp w p i s = (r, s') \<Longrightarrow>
     \<exists>evs. trace s' = trace s @ evs \<and> historyWrites evs = []"
  by (auto simp: uploadImage_def Let_def andThen_cases split: option.splits if_splits
      dest!: uploadFile_eq)

lemma saveMetadataAndHistory_events:
  assumes "saveMetadataAndHistory sp w req f htmlUrl assets s = (Inr url, s')"
  shows "\<exists>evs. trace s' = trace s @ evs \<and>
           historyWrites evs = [HistoryWrite (historyKey req) historyTTL]"
  using assms
  by (auto simp: saveMetadataAndHistory_def uploadJSON_def andThen_cases
      dest!: uploadFile_eq historyUpdate_Inr)

lemma persistUploadFirst_events:
  assumes "persistUploadFirst sp w req f d s = (Inr url, s')"
  shows "\<exists>evs. trace s' = trace s @ evs \<and>
           historyWrites evs = [HistoryWrite (historyKey req) historyTTL]"
  using assms
  by (auto simp: persistUploadFirst_def Let_def andThen_cases
      dest!: uploadImage_events rendering_eq uploadFile_eq saveMetadataAndHistory_events)

lemma persistRenderFirst_events:
  assumes "persistRenderFirst sp w req f d s = (Inr url, s')"
  shows "\<exists>evs. trace s' = trace s @ evs \<and>
           historyWrites evs = [HistoryWrite (historyKey req) historyTTL]"
  using assms
  by (auto simp: persistRenderFirst_def Let_def andThen_cases
      dest!: uploadImage_events rendering_eq uploadFile_eq saveMetadataAndHistory_events)

lemma persist_events:
  "persist v sp w req f d s = (Inr url, s') \<Longrightarrow>
   \<exists>evs. trace s' = trace s @ evs \<and>
           historyWrites evs = [HistoryWrite (historyKey req) historyTTL]"
  by (cases v) (auto dest: persistUploadFirst_events persistRenderFirst_events)

lemma run_Success_historyWrites:
  assumes "run v sp w req s = (Success url, s')"
  shows "historyWrites (newEvents s s') = [HistoryWrite (historyKey req) historyTTL]"
proof -
  from run_Success_reaches[OF assms] obtain f t n d where
    rp: "reachesPersistence v w req f t n d" by blast
  from run_upto_persistence[OF rp, of s sp] obtain s4 where s4:
    "trace s4 = trace s @ admissionEvents req @
             [ParsePdf, ModelCall (ValidationPrompt (take 2000 t)),
              ModelCall (StructuringPrompt t)]"
    "run v sp w req s = finish (persist v sp w req f d s4)" by blast
  from assms s4(2) have "persist v sp w req f d s4 = (Inr url, s')"
    by (auto simp: finish_Success dest: persist_not_Rejected)
  from persist_events[OF this] obtain evs where
    "trace s' = trace s4 @ evs" "historyWrites evs = [HistoryWrite (historyKey req) historyTTL]"
    by blast
  with s4(1) show ?thesis
    by (simp add: newEvents_def admissionEvents_def)
qed


section \<open>The example request, run to the end\<close>

lemma imageExtension_nonempty [simp]: "imageExtension n \<noteq> []"
  by (simp add: imageExtension_def Let_def)

lemma take_letters [simp]: "take m (letters n) = letters (min m n)"
  by (simp add: letters_def min.commute)

lemma example_persist_url:
  "fst (persist v example_storage (example_world pg c t) (example_request tm img) example_file d s)
     = Inr ''/portfolios/portfolios/u1/index.html''"
  by (cases v; cases img)
     (simp_all add: persistUploadFirst_def persistRenderFirst_def uploadImage_def uploadFile_def
        rendering_def saveMetadataAndHistory_def uploadJSON_def historyUpdate_def Let_def
        generationPrompt_def example_storage_def)

lemma example_run_success:
  "fst (run v example_storage (example_world [[letters 120]] ''VALID_RESUME'' ''{}'')
        (example_request tm img) s) = Success ''/portfolios/portfolios/u1/index.html''"
proof -
  have rp: "reachesPersistence v (example_world [[letters 120]] ''VALID_RESUME'' ''{}'')
       (example_request tm img) example_file (letters 120) (Suc 0) (JObj [])"
    by (rule example_reachesPersistence) (cases v; simp)+
  from run_upto_persistence[OF rp, of s example_storage] obtain s4 where
    r: "run v example_storage (example_world [[letters 120]] ''VALID_RESUME'' ''{}'')
        (example_request tm img) s
        = finish (persist v example_storage (example_world [[letters 120]] ''VALID_RESUME'' ''{}'')
            (example_request tm img) example_file (JObj []) s4)"
    by blast
  obtain x s5 where p: "persist v example_storage (example_world [[letters 120]] ''VALID_RESUME'' ''{}'')
            (example_request tm img) example_file (JObj []) s4 = (x, s5)" by (cases "persist v example_storage (example_world [[letters 120]] ''VALID_RESUME'' ''{}'')
            (example_request tm img) example_file (JObj []) s4")
  with example_persist_url[of v "[[letters 120]]" "''VALID_RESUME''" "''{}''" tm img "JObj []" s4]
  have "x = Inr ''/portfolios/portfolios/u1/index.html''" by simp
  with r p show ?thesis by simp
qed

lemma example_historyKey [simp]:
  "historyKey (example_request tm img) = ''portfolio:history:203.0.113.7''"
  by (simp add: historyKey_def clientId_def)

lemma andThen_prefix_step:
  assumes "trace (snd r) = trace s @ evs"
    and "\<And>a s1. prefix (trace s1) (trace (snd (k a s1)))"
  shows "prefix (trace s @ evs) (trace (snd (andThen r k)))"
proof (cases r)
  case (Pair x s1)
  show ?thesis
  proof (cases x)
    case (Inl out)
    with Pair assms(1) show ?thesis by simp
  next
    case (Inr a)
    with Pair assms(1) assms(2)[of s1 a] show ?thesis by simp
  qed
qed

lemma uploadImage_Some_ok:
  assumes "storage_error w (p @ ''/assets/profile.'' @ imageExtension (file_name img)) = None"
  shows "uploadImage v sp w p (Some img) s =
           (Inr (Some (uploadedUrl sp w (p @ ''/assets/profile.'' @ imageExtension (file_name img))),
                 [''profile.'' @ imageExtension (file_name img)]),
            snd (uploadImage v sp w p (Some img) s)) \<and>
         trace (snd (uploadImage v sp w p (Some img) s)) =
           trace s @ [Upload (p @ ''/assets/profile.'' @ imageExtension (file_name img))
                        (Bytes (file_bytes img)) (file_type img)]"
  using assms by (simp add: uploadImage_def uploadFile_def Let_def)

lemma uploadImage_Some_fails:
  assumes "storage_error w (p @ ''/assets/profile.'' @ imageExtension (file_name img)) = Some m"
  shows "uploadImage v sp w p (Some img) s =
           (Inl (Thrown m), snd (uploadImage v sp w p (Some img) s)) \<and>
         trace (snd (uploadImage v sp w p (Some img) s)) =
           trace s @ [Upload (p @ ''/assets/profile.'' @ imageExtension (file_name img))
                        (Bytes (file_bytes img)) (file_type img)]"
  using assms by (simp add: uploadImage_def uploadFile_def Let_def)

lemma cleanHTML_plain [simp]: "cleanHTML ''<html></html>'' = ''<html></html>''"
  by (simp add: cleanHTML_def match_fence_def fence_open_def)

lemma imageExtension_png [simp]: "imageExtension ''me.png'' = ''png''"
  by (simp add: imageExtension_def)

lemma example_image_simps [simp]:
  "file_name (example_image n) = n" "file_type (example_image n) = ''image/png''"
  "file_bytes (example_image n) = ''PNG''"
  by (simp_all add: example_image_def)

lemma example_profilePath [simp]:
  "profilePath (example_world pg c t) (example_image ''me.png'') = ''portfolios/u1/assets/profile.png''"
  by (simp add: profilePath_def)

lemma example_indexPath [simp]:
  "indexPath (example_world pg c t) = ''portfolios/u1/index.html''"
  by (simp add: indexPath_def)

lemma example_uploadedUrl [simp]:
  "uploadedUrl example_storage w p = ''/portfolios/'' @ p"
  by (simp add: example_storage_def)

lemma example_RenderFirst_trace:
  "trace (snd (persistRenderFirst example_storage (example_world pg c t)
        (example_request ''dark-modern'' (Some (example_image ''me.png''))) example_file (JObj []) s))
   = trace s @
     [ModelCall (GenerationPrompt None ''dark-modern'' (ProfileImage ''./assets/profile.png'') (JObj [])),
      Upload ''portfolios/u1/index.html'' (Html ''<html></html>'') ''text/html'',
      Upload ''portfolios/u1/assets/profile.png'' (Bytes ''PNG'') ''image/png'',
      Upload ''portfolios/u1/metadata.json''
        (JsonDoc (mkMetadata example_storage (example_world pg c t)
           (example_request ''dark-modern'' (Some (example_image ''me.png''))) example_file
           [''profile.png''])) ''application/json'',
      HistoryRead ''portfolio:history:203.0.113.7'',
      HistoryWrite ''portfolio:history:203.0.113.7'' 2592000]"
  by (simp add: persistRenderFirst_def uploadImage_def uploadFile_def
        rendering_def saveMetadataAndHistory_def uploadJSON_def historyUpdate_def Let_def
        generationPrompt_def imageSection_def template_def historyTTL_def redis_set_def
        cleanHTML_plain)


section \<open>Persistence with a profile image\<close>

text \<open>
  What the two handlers do after the structuring answer has been parsed, for a request
  that carries a profile image: the calls they make, in order, with what is sent, and
  what the image upload leaves in the store.
\<close>

lemma run_upto_persistence_calls:
  assumes "reachesPersistence v w req f t n d"
  shows "\<exists>s4. files s4 = files s \<and> kv s4 = kv s \<and>
           trace s4 = trace s @ callsBeforePersistence req t \<and>
           run v sp w req s = finish (persist v sp w req f d s4)"
  using run_upto_persistence[OF assms, of s sp] by (simp add: callsBeforePersistence_def)

lemma uploadFile_files_other:
  "storageKey sp w p \<noteq> k \<Longrightarrow> files (snd (uploadFile sp w p c ct s)) k = files s k"
  by (simp add: uploadFile_def Let_def split: option.splits)

lemma rendering_files: "files (snd (rendering w p s)) = files s"
  by (simp add: rendering_def Let_def split: sum.splits)

lemma historyUpdate_files: "files (snd (historyUpdate w k r s)) = files s"
  by (simp add: historyUpdate_def Let_def redis_set_def split: option.splits)

lemma andThen_files_at:
  assumes "files (snd r) k = files s k"
    and "\<And>a s1. files (snd (K a s1)) k = files s1 k"
  shows "files (snd (andThen r K)) k = files s k"
proof (cases r)
  case (Pair x s1)
  show ?thesis
  proof (cases x)
    case (Inl out)
    with Pair assms(1) show ?thesis by simp
  next
    case (Inr a)
    with Pair assms(1) assms(2)[of a s1] show ?thesis by simp
  qed
qed

lemma saveMetadataAndHistory_files_other:
  assumes "storageKey sp w (metadataPath w) \<noteq> k"
  shows "files (snd (saveMetadataAndHistory sp w req f u a s)) k = files s k"
  unfolding saveMetadataAndHistory_def uploadJSON_def
  using assms
  by (intro andThen_files_at uploadFile_files_other)
     (simp_all add: metadataPath_def historyUpdate_files)

lemma uploadImage_Some_trace:
  "trace (snd (uploadImage v sp w p (Some img) s)) =
     trace s @ [Upload (p @ ''/assets/profile.'' @ imageExtension (file_name img))
                  (Bytes (file_bytes img)) (file_type img)]"
  by (simp add: uploadImage_def uploadFile_def Let_def split: option.splits)

lemma uploadImage_Some_stored:
  assumes "storage_error w (p @ ''/assets/profile.'' @ imageExtension (file_name img)) = None"
  shows "files (snd (uploadImage v sp w p (Some img) s))
           (storageKey sp w (p @ ''/assets/profile.'' @ imageExtension (file_name img)))
         = Some (Bytes (file_bytes img), storedType sp (file_type img))"
  using assms by (simp add: uploadImage_def uploadFile_def Let_def)

lemma generationPrompt_UploadFirst:
  "generationPrompt UploadFirst w tmpl (Some url) d =
     GenerationPrompt (Some (creativeVariations ! (random_index w mod 5), randomSeed w)) tmpl
       (if url = [] then NoProfileImage else ProfileImage url) d"
  by (simp add: generationPrompt_def imageSection_def)

lemma generationPrompt_RenderFirst:
  "generationPrompt RenderFirst w tmpl (Some (''./assets/profile.'' @ ext)) d =
     GenerationPrompt None tmpl (ProfileImage (''./assets/profile.'' @ ext)) d"
  by (simp add: generationPrompt_def imageSection_def)

lemma first_handler_with_image:
  assumes rp: "reachesPersistence UploadFirst w req f t n d"
    and img: "form_image req = Some img"
    and iu: "imageUpload = Upload (profilePath w img) (Bytes (file_bytes img)) (file_type img)"
    and p1: "p1 = GenerationPrompt
                    (Some (creativeVariations ! (random_index w mod 5), randomSeed w))
                    (template req)
                    (if uploadedUrl sp w (profilePath w img) = [] then NoProfileImage
                     else ProfileImage (uploadedUrl sp w (profilePath w img))) d"
  shows "(\<forall>m. storage_error w (profilePath w img) = Some m \<longrightarrow>
            fst (run UploadFirst sp w req s) = Thrown m \<and>
            newEvents s (snd (run UploadFirst sp w req s))
              = callsBeforePersistence req t @ [imageUpload]) \<and>
         (storage_error w (profilePath w img) = None \<longrightarrow>
            prefix (callsBeforePersistence req t @ [imageUpload, ModelCall p1])
              (newEvents s (snd (run UploadFirst sp w req s))) \<and>
            (\<forall>generated. generateText w p1 = Inr generated \<longrightarrow>
               prefix (callsBeforePersistence req t @
                         [imageUpload, ModelCall p1,
                          Upload (indexPath w) (Html (cleanHTML generated)) ''text/html''])
                 (newEvents s (snd (run UploadFirst sp w req s)))) \<and>
            (storageKey sp w (indexPath w) \<noteq> storageKey sp w (profilePath w img) \<and>
             storageKey sp w (metadataPath w) \<noteq> storageKey sp w (profilePath w img) \<longrightarrow>
               files (snd (run UploadFirst sp w req s)) (storageKey sp w (profilePath w img))
                 = Some (Bytes (file_bytes img), storedType sp (file_type img))))"
proof -
  let ?pre = "callsBeforePersistence req t"
  let ?p = "''portfolios/'' @ randomUUID w"
  let ?ext = "imageExtension (file_name img)"
  from run_upto_persistence_calls[OF rp, of s sp] obtain s4 where s4:
    "trace s4 = trace s @ ?pre"
    "run UploadFirst sp w req s = finish (persistUploadFirst sp w req f d s4)"
    by auto
  have path: "?p @ ''/assets/profile.'' @ ?ext = profilePath w img"
    by (simp add: profilePath_def)
  let ?ui = "uploadImage UploadFirst sp w ?p (Some img) s4"
  have tr5: "trace (snd ?ui) = trace s4 @ [imageUpload]"
    using uploadImage_Some_trace[of UploadFirst sp w ?p img s4] unfolding path iu .
  have failing: "fst (run UploadFirst sp w req s) = Thrown m \<and>
            newEvents s (snd (run UploadFirst sp w req s)) = ?pre @ [imageUpload]"
    if m: "storage_error w (profilePath w img) = Some m" for m
  proof -
    from uploadImage_Some_fails[of w ?p img m UploadFirst sp s4] m
    have u: "?ui = (Inl (Thrown m), snd ?ui)" unfolding path by blast
    define s5 where "s5 = snd ?ui"
    have "run UploadFirst sp w req s = (Thrown m, snd ?ui)"
      unfolding s4(2) persistUploadFirst_def Let_def img by (subst u) simp
    then have r: "run UploadFirst sp w req s = (Thrown m, s5)"
      unfolding s5_def .
    have "trace s5 = trace s @ ?pre @ [imageUpload]"
      unfolding s5_def tr5 s4(1) by simp
    then have "newEvents s s5 = ?pre @ [imageUpload]"
      by (rule newEvents_append)
    with r show ?thesis by simp
  qed
  have ok: "prefix (?pre @ [imageUpload, ModelCall p1])
              (newEvents s (snd (run UploadFirst sp w req s))) \<and>
            (\<forall>generated. generateText w p1 = Inr generated \<longrightarrow>
               prefix (?pre @ [imageUpload, ModelCall p1,
                          Upload (indexPath w) (Html (cleanHTML generated)) ''text/html''])
                 (newEvents s (snd (run UploadFirst sp w req s)))) \<and>
            (storageKey sp w (indexPath w) \<noteq> storageKey sp w (profilePath w img) \<and>
             storageKey sp w (metadataPath w) \<noteq> storageKey sp w (profilePath w img) \<longrightarrow>
               files (snd (run UploadFirst sp w req s)) (storageKey sp w (profilePath w img))
                 = Some (Bytes (file_bytes img), storedType sp (file_type img)))"
    if e: "storage_error w (profilePath w img) = None"
  proof -
    let ?s5 = "snd ?ui"
    from uploadImage_Some_ok[of w ?p img UploadFirst sp s4] e
    have u: "?ui = (Inr (Some (uploadedUrl sp w (profilePath w img)), [''profile.'' @ ?ext]), ?s5)"
      unfolding path by blast
    have gp: "generationPrompt UploadFirst w (template req)
                (Some (uploadedUrl sp w (profilePath w img))) d = p1"
      unfolding p1 by (rule generationPrompt_UploadFirst)
    let ?k = "\<lambda>generatedHtml s2.
                andThen
                  (uploadFile sp w (?p @ ''/index.html'') (Html generatedHtml) ''text/html'' s2)
                  (\<lambda>htmlUrl s3. saveMetadataAndHistory sp w req f htmlUrl
                     [''profile.'' @ ?ext] s3)"
    have "run UploadFirst sp w req s
            = finish (andThen ?ui
                (\<lambda>(uploadedImageUrl, assets) s1.
                   andThen (rendering w
                     (generationPrompt UploadFirst w (template req) uploadedImageUrl d) s1)
                     (\<lambda>generatedHtml s2.
                        andThen
                          (uploadFile sp w (?p @ ''/index.html'') (Html generatedHtml)
                             ''text/html'' s2)
                          (\<lambda>htmlUrl s3. saveMetadataAndHistory sp w req f htmlUrl assets s3))))"
      unfolding s4(2) persistUploadFirst_def Let_def img ..
    then have r: "snd (run UploadFirst sp w req s) = snd (andThen (rendering w p1 ?s5) ?k)"
      by (subst (asm) u) (simp add: gp)
    have k: "\<And>a s1. prefix (trace s1) (trace (snd (?k a s1)))"
      by (intro andThen_prefix uploadFile_prefix saveMetadataAndHistory_prefix)
    have 1: "prefix (trace ?s5 @ [ModelCall p1]) (trace (snd (run UploadFirst sp w req s)))"
      unfolding r by (rule andThen_prefix_step[OF rendering_trace k])
    have first: "prefix (?pre @ [imageUpload, ModelCall p1])
           (newEvents s (snd (run UploadFirst sp w req s)))"
      by (rule prefix_newEvents) (use 1 tr5 s4(1) in simp)
    have second: "prefix (?pre @ [imageUpload, ModelCall p1,
                   Upload (indexPath w) (Html (cleanHTML generated)) ''text/html''])
              (newEvents s (snd (run UploadFirst sp w req s)))"
      if g: "generateText w p1 = Inr generated" for generated
    proof -
      let ?s6 = "logEvent (ModelCall p1) ?s5"
      have rr: "rendering w p1 ?s5 = (Inr (cleanHTML generated), ?s6)"
        by (simp add: rendering_def Let_def g)
      have 2: "prefix (trace ?s6 @ [Upload (?p @ ''/index.html'') (Html (cleanHTML generated)) ''text/html''])
              (trace (snd (run UploadFirst sp w req s)))"
        unfolding r rr andThen_Inr
        by (rule andThen_prefix_step[OF uploadFile_trace saveMetadataAndHistory_prefix])
      show ?thesis
        by (rule prefix_newEvents) (use 2 tr5 s4(1) in \<open>simp add: indexPath_def\<close>)
    qed
    have third: "files (snd (run UploadFirst sp w req s)) (storageKey sp w (profilePath w img))
                 = Some (Bytes (file_bytes img), storedType sp (file_type img))"
      if keys: "storageKey sp w (indexPath w) \<noteq> storageKey sp w (profilePath w img)"
        "storageKey sp w (metadataPath w) \<noteq> storageKey sp w (profilePath w img)"
    proof -
      have st: "files ?s5 (storageKey sp w (profilePath w img))
                  = Some (Bytes (file_bytes img), storedType sp (file_type img))"
        using uploadImage_Some_stored[of w ?p img UploadFirst sp s4] e unfolding path by blast
      have ix: "storageKey sp w (?p @ ''/index.html'') \<noteq> storageKey sp w (profilePath w img)"
        using keys(1) by (simp add: indexPath_def)
      have "files (snd (andThen (rendering w p1 ?s5) ?k)) (storageKey sp w (profilePath w img))
              = files ?s5 (storageKey sp w (profilePath w img))"
        by (intro andThen_files_at uploadFile_files_other saveMetadataAndHistory_files_other
              ix keys(2)) (simp add: rendering_files)
      with st show ?thesis by (simp add: r)
    qed
    from first second third show ?thesis by blast
  qed
  from failing ok show ?thesis by blast
qed

lemma second_handler_with_image:
  assumes rp: "reachesPersistence RenderFirst w req f t n d"
    and img: "form_image req = Some img"
    and iu: "imageUpload = Upload (profilePath w img) (Bytes (file_bytes img)) (file_type img)"
    and p2: "p2 = GenerationPrompt None (template req)
                    (ProfileImage (''./assets/profile.'' @ imageExtension (file_name img))) d"
  shows "prefix (callsBeforePersistence req t @ [ModelCall p2])
           (newEvents s (snd (run RenderFirst sp w req s))) \<and>
         (\<forall>generated. generateText w p2 = Inr generated \<longrightarrow>
            prefix (callsBeforePersistence req t @
                      [ModelCall p2,
                       Upload (indexPath w) (Html (cleanHTML generated)) ''text/html''])
              (newEvents s (snd (run RenderFirst sp w req s))) \<and>
            (storage_error w (indexPath w) = None \<longrightarrow>
               prefix (callsBeforePersistence req t @
                         [ModelCall p2,
                          Upload (indexPath w) (Html (cleanHTML generated)) ''text/html'',
                          imageUpload])
                 (newEvents s (snd (run RenderFirst sp w req s))) \<and>
               (storage_error w (profilePath w img) = None \<and>
                storageKey sp w (metadataPath w) \<noteq> storageKey sp w (profilePath w img) \<longrightarrow>
                  files (snd (run RenderFirst sp w req s)) (storageKey sp w (profilePath w img))
                    = Some (Bytes (file_bytes img), storedType sp (file_type img)))))"
proof -
  let ?pre = "callsBeforePersistence req t"
  let ?p = "''portfolios/'' @ randomUUID w"
  let ?ext = "imageExtension (file_name img)"
  let ?run = "run RenderFirst sp w req s"
  from run_upto_persistence_calls[OF rp, of s sp] obtain s4 where s4:
    "trace s4 = trace s @ ?pre"
    "run RenderFirst sp w req s = finish (persistRenderFirst sp w req f d s4)"
    by auto
  have path: "?p @ ''/assets/profile.'' @ ?ext = profilePath w img"
    by (simp add: profilePath_def)
  have ipath: "?p @ ''/index.html'' = indexPath w"
    by (simp add: indexPath_def)
  have gp: "generationPrompt RenderFirst w (template req)
              (Some (''./assets/profile.'' @ ?ext)) d = p2"
    unfolding p2 by (rule generationPrompt_RenderFirst)
  let ?k2 = "\<lambda>htmlUrl s2.
               andThen (uploadImage RenderFirst sp w ?p (Some img) s2)
                 (\<lambda>(uploadedImageUrl, assets) s3.
                    saveMetadataAndHistory sp w req f htmlUrl assets s3)"
  let ?k1 = "\<lambda>generatedHtml s1.
               andThen (uploadFile sp w (indexPath w) (Html generatedHtml) ''text/html'' s1) ?k2"
  have r: "snd ?run = snd (andThen (rendering w p2 s4) ?k1)"
    unfolding s4(2) persistRenderFirst_def Let_def img option.map gp ipath snd_finish ..
  have k3: "\<And>u a s1. prefix (trace s1)
              (trace (snd ((\<lambda>(uploadedImageUrl, assets) s3.
                    saveMetadataAndHistory sp w req f u assets s3) a s1)))"
    by (simp add: saveMetadataAndHistory_prefix split: prod.splits)
  have k2: "\<And>a s1. prefix (trace s1) (trace (snd (?k2 a s1)))"
    by (rule andThen_prefix[OF uploadImage_prefix k3])
  have k1: "\<And>a s1. prefix (trace s1) (trace (snd (?k1 a s1)))"
    by (rule andThen_prefix[OF uploadFile_prefix k2])
  have 1: "prefix (trace s4 @ [ModelCall p2]) (trace (snd ?run))"
    unfolding r by (rule andThen_prefix_step[OF rendering_trace k1])
  have first: "prefix (?pre @ [ModelCall p2]) (newEvents s (snd ?run))"
    by (rule prefix_newEvents) (use 1 s4(1) in simp)
  have rest: "prefix (?pre @ [ModelCall p2,
                       Upload (indexPath w) (Html (cleanHTML generated)) ''text/html''])
              (newEvents s (snd ?run)) \<and>
            (storage_error w (indexPath w) = None \<longrightarrow>
               prefix (?pre @ [ModelCall p2,
                          Upload (indexPath w) (Html (cleanHTML generated)) ''text/html'',
                          imageUpload])
                 (newEvents s (snd ?run)) \<and>
               (storage_error w (profilePath w img) = None \<and>
                storageKey sp w (metadataPath w) \<noteq> storageKey sp w (profilePath w img) \<longrightarrow>
                  files (snd ?run) (storageKey sp w (profilePath w img))
                    = Some (Bytes (file_bytes img), storedType sp (file_type img))))"
    if g: "generateText w p2 = Inr generated" for generated
  proof -
    define s5 where "s5 = logEvent (ModelCall p2) s4"
    define page where "page = Upload (indexPath w) (Html (cleanHTML generated)) ''text/html''"
    have rr: "rendering w p2 s4 = (Inr (cleanHTML generated), s5)"
      by (simp add: rendering_def Let_def g s5_def)
    have tr5: "trace s5 = trace s @ ?pre @ [ModelCall p2]"
      by (simp add: s5_def s4(1))
    let ?uf = "uploadFile sp w (indexPath w) (Html (cleanHTML generated)) ''text/html'' s5"
    have r2: "snd ?run = snd (andThen ?uf ?k2)"
      unfolding r rr andThen_Inr ..
    have tr6: "trace (snd ?uf) = trace s5 @ [page]"
      unfolding page_def by (rule uploadFile_trace)
    have 2: "prefix (trace s5 @ [page]) (trace (snd ?run))"
      unfolding r2 by (rule andThen_prefix_step[OF tr6 k2])
    have second: "prefix (?pre @ [ModelCall p2, page]) (newEvents s (snd ?run))"
      by (rule prefix_newEvents) (use 2 tr5 in simp)
    have third: "prefix (?pre @ [ModelCall p2, page, imageUpload]) (newEvents s (snd ?run)) \<and>
               (storage_error w (profilePath w img) = None \<and>
                storageKey sp w (metadataPath w) \<noteq> storageKey sp w (profilePath w img) \<longrightarrow>
                  files (snd ?run) (storageKey sp w (profilePath w img))
                    = Some (Bytes (file_bytes img), storedType sp (file_type img)))"
      if e: "storage_error w (indexPath w) = None"
    proof -
      define s6 where "s6 = snd ?uf"
      have uf: "?uf = (Inr (uploadedUrl sp w (indexPath w)), s6)"
        unfolding s6_def using e by (simp add: uploadFile_def Let_def)
      have tr6': "trace s6 = trace s @ ?pre @ [ModelCall p2, page]"
        unfolding s6_def tr6 tr5 by simp
      let ?ui = "uploadImage RenderFirst sp w ?p (Some img) s6"
      let ?k3 = "\<lambda>(uploadedImageUrl, assets) s3.
                    saveMetadataAndHistory sp w req f (uploadedUrl sp w (indexPath w)) assets s3"
      have r3: "snd ?run = snd (andThen ?ui ?k3)"
        unfolding r2 uf andThen_Inr ..
      have tr7: "trace (snd ?ui) = trace s6 @ [imageUpload]"
        using uploadImage_Some_trace[of RenderFirst sp w ?p img s6] unfolding path iu .
      have 3: "prefix (trace s6 @ [imageUpload]) (trace (snd ?run))"
        unfolding r3 by (rule andThen_prefix_step[OF tr7 k3])
      have ev: "prefix (?pre @ [ModelCall p2, page, imageUpload]) (newEvents s (snd ?run))"
        by (rule prefix_newEvents) (use 3 tr6' in simp)
      have stored: "files (snd ?run) (storageKey sp w (profilePath w img))
                    = Some (Bytes (file_bytes img), storedType sp (file_type img))"
        if ok: "storage_error w (profilePath w img) = None"
          and key: "storageKey sp w (metadataPath w) \<noteq> storageKey sp w (profilePath w img)"
      proof -
        define s7 where "s7 = snd ?ui"
        from uploadImage_Some_ok[of w ?p img RenderFirst sp s6] ok
        have u: "?ui = (Inr (Some (uploadedUrl sp w (profilePath w img)), [''profile.'' @ ?ext]), s7)"
          unfolding path s7_def by blast
        have st: "files s7 (storageKey sp w (profilePath w img))
                    = Some (Bytes (file_bytes img), storedType sp (file_type img))"
          using uploadImage_Some_stored[of w ?p img RenderFirst sp s6] ok
          unfolding path s7_def by blast
        have "snd ?run = snd (saveMetadataAndHistory sp w req f (uploadedUrl sp w (indexPath w))
                                [''profile.'' @ ?ext] s7)"
          unfolding r3 u andThen_Inr prod.case ..
        with st saveMetadataAndHistory_files_other[OF key] show ?thesis by simp
      qed
      from ev stored show ?thesis by blast
    qed
    from second third show ?thesis unfolding page_def by blast
  qed
  from first rest show ?thesis by blast
qed

lemma reachesPersistence_storage_error [simp]:
  "reachesPersistence v (w\<lparr>storage_error := e\<rparr>) req f t n d = reachesPersistence v w req f t n d"
  by (simp add: reachesPersistence_def reachesStructuring_def reachesClassification_def
        reachesPreValidation_def admitted_def parsePdfBuffer_def split: sum.splits)


section \<open>A PDF of eleven pages\<close>

lemma js_join_blank_pages:
  "js_join sep (x # replicate n []) = x @ concat (replicate n sep)"
  by (induction n arbitrary: x) (simp_all add: replicate_app_Cons_same)

lemma trim_Nil: "trim [] = []"
  by (simp add: trim_def)

lemma trim_trailing_newlines:
  assumes "0 < n"
  shows "trim (letters n @ replicate m (CHR ''\<newline>'')) = letters n"
proof -
  let ?nl = "replicate m (CHR ''\<newline>'')"
  have 1: "dropWhile isWhiteSpace (letters n @ ?nl) = letters n @ ?nl"
    using assms by (cases n) (simp_all add: letters_def isWhiteSpace_def)
  have 2: "rev (letters n @ ?nl) = ?nl @ letters n"
    by (simp add: letters_def)
  have 3: "dropWhile isWhiteSpace (?nl @ letters n) = dropWhile isWhiteSpace (letters n)"
    by (rule dropWhile_append2) (simp add: isWhiteSpace_def)
  have 4: "dropWhile isWhiteSpace (letters n) = letters n"
    by (simp add: letters_def isWhiteSpace_def)
  have 5: "rev (letters n) = letters n" by (simp add: letters_def)
  show ?thesis unfolding trim_def 1 2 3 4 5 ..
qed

lemma example_parse_eleven_pages:
  "parsePdfBuffer (example_world ([letters n] # replicate 10 []) c t) b
     = Inr (letters n @ replicate 10 (CHR ''\<newline>''), 11)"
  by (simp add: parsePdfBuffer_def js_join_blank_pages)


section \<open>Splitting the file name\<close>

lemma js_split_nonempty [simp]: "js_split c s \<noteq> []"
  by (induction s) (auto split: list.splits)

lemma js_split_no_sep: "c \<notin> set s \<Longrightarrow> js_split c s = [s]"
  by (induction s) auto

lemma js_split_sep_length: "2 \<le> length (js_split c (b @ c # e))"
proof (induction b)
  case Nil
  then show ?case by (cases "js_split c e") simp_all
next
  case (Cons x b)
  then show ?case by (cases "js_split c (b @ c # e)") auto
qed

lemma last_js_split_append:
  "c \<notin> set e \<Longrightarrow> last (js_split c (b @ c # e)) = e"
proof (induction b)
  case Nil
  then show ?case by (simp add: js_split_no_sep)
next
  case (Cons x b)
  obtain p ps where ps: "js_split c (b @ c # e) = p # ps"
    by (cases "js_split c (b @ c # e)") simp_all
  with js_split_sep_length[of c b e] have "ps \<noteq> []" by auto
  with Cons ps show ?case by auto
qed

lemma imageExtension_after_last_dot:
  "CHR ''.'' \<notin> set e \<Longrightarrow> e \<noteq> [] \<Longrightarrow> imageExtension (b @ ''.'' @ e) = e"
  by (simp add: imageExtension_def last_js_split_append)

lemma imageExtension_trailing_dot: "imageExtension (b @ ''.'') = ''jpg''"
  using last_js_split_append[of "CHR ''.''" "[]" b] by (simp add: imageExtension_def)

lemma imageExtension_no_dot:
  "CHR ''.'' \<notin> set n \<Longrightarrow> n \<noteq> [] \<Longrightarrow> imageExtension n = n"
  by (simp add: imageExtension_def js_split_no_sep)

lemma uploads_simps [simp]:
  "uploads [] = []"
  "uploads (xs @ ys) = uploads xs @ uploads ys"
  "uploads (RateLimit i # xs) = uploads xs"
  "uploads (Recaptcha t # xs) = uploads xs"
  "uploads (ParsePdf # xs) = uploads xs"
  "uploads (ModelCall p # xs) = uploads xs"
  "uploads (Upload q qc qt # xs) = Upload q qc qt # uploads xs"
  "uploads (HistoryRead k # xs) = uploads xs"
  "uploads (HistoryWrite k ex # xs) = uploads xs"
  by (simp_all add: uploads_def)

lemma imageExtension_photo: "imageExtension ''photo'' = ''photo''"
  by (simp add: imageExtension_def)

lemma example_UploadFirst_uploads:
  "uploads (drop (length (trace s)) (trace (snd (persistUploadFirst example_storage (example_world pg c t)
        (example_request ''dark-modern'' (Some (example_image ''photo''))) example_file (JObj []) s))))
   = [Upload ''portfolios/u1/assets/profile.photo'' (Bytes ''PNG'') ''image/png'',
      Upload ''portfolios/u1/index.html'' (Html ''<html></html>'') ''text/html'',
      Upload ''portfolios/u1/metadata.json''
        (JsonDoc (mkMetadata example_storage (example_world pg c t)
           (example_request ''dark-modern'' (Some (example_image ''photo''))) example_file
           [''profile.photo''])) ''application/json'']"
  by (simp add: persistUploadFirst_def uploadImage_def uploadFile_def
        rendering_def saveMetadataAndHistory_def uploadJSON_def historyUpdate_def Let_def
        generationPrompt_def imageSection_def template_def historyTTL_def redis_set_def
        imageExtension_photo cleanHTML_plain)


section \<open>Rejections leave the stores alone\<close>

text \<open>
  C10. A request that is rejected (rate limit, CAPTCHA failure, missing file, empty
  extracted text, a failed heuristic check, or a document classified as not a resume)
  makes no upload and no history write: the stored objects and the key-value store,
  hence the client's history, are what they were before the request.
\<close>

theorem rejected_leaves_no_trace_in_stores:
  assumes "run v sp w req s = (Rejected r, s')"
  shows "files s' = files s \<and> kv s' = kv s \<and>
         uploads (newEvents s s') = [] \<and> historyWrites (newEvents s s') = []"
proof -
  let ?rej = "Inl (Rejected r) :: outcome + string"
  from assms have chain:
    "andThen (admission w req s)
       (\<lambda>f s1. andThen (extraction w f s1)
          (\<lambda>(resumeText, pageCount) s2.
             andThen (preValidationStep v resumeText pageCount s2)
               (\<lambda>u s3. andThen (classification w resumeText s3)
                  (\<lambda>u s4. andThen (structuring w resumeText s4)
                     (\<lambda>structuredData s5. persist v sp w req f structuredData s5)))))
     = (?rej, s')"
    by (simp add: run_def finish_Rejected)
  have "quiet s s'"
  proof -
    from chain consider
        (a) "admission w req s = (Inl (Rejected r), s')"
      | (b) f s1 where "admission w req s = (Inr f, s1)"
          "andThen (extraction w f s1)
            (\<lambda>(resumeText, pageCount) s2.
               andThen (preValidationStep v resumeText pageCount s2)
                 (\<lambda>u s3. andThen (classification w resumeText s3)
                    (\<lambda>u s4. andThen (structuring w resumeText s4)
                       (\<lambda>structuredData s5. persist v sp w req f structuredData s5))))
           = (?rej, s')"
      by (auto simp: andThen_cases)
    then show ?thesis
    proof cases
      case a then show ?thesis by (rule admission_quiet)
    next
      case b
      have q1: "quiet s s1" using b(1) by (rule admission_quiet)
      from b(2) consider
          (c) "extraction w f s1 = (Inl (Rejected r), s')"
        | (d) t n s2 where "extraction w f s1 = (Inr (t, n), s2)"
            "andThen (preValidationStep v t n s2)
               (\<lambda>u s3. andThen (classification w t s3)
                  (\<lambda>u s4. andThen (structuring w t s4)
                     (\<lambda>structuredData s5. persist v sp w req f structuredData s5)))
             = (?rej, s')"
        by (auto simp: andThen_cases)
      then show ?thesis
      proof cases
        case c then show ?thesis using q1 extraction_quiet quiet_trans by blast
      next
        case d
        have q2: "quiet s s2" using q1 d(1) extraction_quiet quiet_trans by blast
        from d(2) consider
            (e) "preValidationStep v t n s2 = (Inl (Rejected r), s')"
          | (g) s3 where "preValidationStep v t n s2 = (Inr (), s3)"
              "andThen (classification w t s3)
                  (\<lambda>u s4. andThen (structuring w t s4)
                     (\<lambda>structuredData s5. persist v sp w req f structuredData s5))
               = (?rej, s')"
          by (auto simp: andThen_cases)
        then show ?thesis
        proof cases
          case e then show ?thesis using q2 preValidationStep_keeps by blast
        next
          case g
          have q3: "quiet s s3" using q2 g(1) preValidationStep_keeps by blast
          from g(2) consider
              (h) "classification w t s3 = (Inl (Rejected r), s')"
            | (i) s4 where "classification w t s3 = (Inr (), s4)"
                "andThen (structuring w t s4)
                     (\<lambda>structuredData s5. persist v sp w req f structuredData s5)
                 = (?rej, s')"
            by (auto simp: andThen_cases)
          then show ?thesis
          proof cases
            case h then show ?thesis using q3 classification_quiet quiet_trans by blast
          next
            case i
            from i(2) have False
              by (auto simp: andThen_cases dest: structuring_not_Rejected persist_not_Rejected)
            then show ?thesis ..
          qed
        qed
      qed
    qed
  qed
  then show ?thesis by (rule quiet_newEvents)
qed
theorem rejected_leaves_no_trace_witness:
  "fst (run UploadFirst example_storage (example_world [[letters 120]] ''NOT_A_RESUME'' ''{}'')
        (example_request ''dark-modern'' None) empty_state) = Rejected NotAResume \<and>
   files (snd (run UploadFirst example_storage (example_world [[letters 120]] ''NOT_A_RESUME'' ''{}'')
        (example_request ''dark-modern'' None) empty_state)) = files empty_state \<and>
   kv (snd (run UploadFirst example_storage (example_world [[letters 120]] ''NOT_A_RESUME'' ''{}'')
        (example_request ''dark-modern'' None) empty_state)) = kv empty_state \<and>
   uploads (newEvents empty_state (snd (run UploadFirst example_storage
        (example_world [[letters 120]] ''NOT_A_RESUME'' ''{}'')
        (example_request ''dark-modern'' None) empty_state))) = [] \<and>
   historyWrites (newEvents empty_state (snd (run UploadFirst example_storage
        (example_world [[letters 120]] ''NOT_A_RESUME'' ''{}'')
        (example_request ''dark-modern'' None) empty_state))) = []"
proof -
  let ?r = "run UploadFirst example_storage (example_world [[letters 120]] ''NOT_A_RESUME'' ''{}'')
        (example_request ''dark-modern'' None) empty_state"
  have e: "fst ?r = Rejected NotAResume" by (rule example_run_not_a_resume)
  then have "?r = (Rejected NotAResume, snd ?r)" by (metis prod.collapse)
  from rejected_leaves_no_trace_in_stores[OF this] e show ?thesis by simp
qed


section \<open>Heuristic checks come before the model\<close>

text \<open>
  C2, as the code has it. For every admitted request whose PDF parses: when the trimmed
  text has fewer than 100 characters or there are more than 10 pages, no model call is
  made. If the extracted text is not empty the request is rejected with \<open>TooShort\<close>
  (checked first) or \<open>TooManyPages\<close>, status 400. If the extracted text is empty, the
  earlier guard on the empty text answers instead: \<open>ExtractionFailed\<close>, status 500.
\<close>

theorem short_or_many_pages_rejected_before_any_model_call:
  assumes "admitted w req f"
    and "parsePdfBuffer w (file_bytes f) = Inr (resumeText, pageCount)"
    and "length (trim resumeText) < 100 \<or> pageCount > 10"
  shows "modelCalls (newEvents s (snd (run v sp w req s))) = [] \<and>
         (resumeText \<noteq> [] \<longrightarrow>
           fst (run v sp w req s) =
             Rejected (if length (trim resumeText) < 100 then TooShort else TooManyPages) \<and>
           (\<exists>m. respond v (fst (run v sp w req s)) = Json_error m 400)) \<and>
         (resumeText = [] \<longrightarrow>
           fst (run v sp w req s) = Rejected ExtractionFailed \<and>
           (\<exists>m. respond v (fst (run v sp w req s)) = Json_error m 500))"
proof (cases "resumeText = []")
  case True
  with run_extraction_empty[of w req f pageCount s v sp] assms(1,2)
  show ?thesis by auto
next
  case False
  have pv: "preValidation v resumeText pageCount =
              Some (if length (trim resumeText) < 100 then TooShort else TooManyPages)"
    using assms(3) by (auto simp: preValidation_def Let_def)
  with False run_upto_preValidation[OF assms(1,2), of s v sp]
  show ?thesis by (auto simp: preValidationStep_def)
qed

theorem short_or_many_pages_witness:
  "admitted (example_world [[letters 40]] ''VALID_RESUME'' ''{}'')
     (example_request ''dark-modern'' None) example_file \<and>
   parsePdfBuffer (example_world [[letters 40]] ''VALID_RESUME'' ''{}'')
     (file_bytes example_file) = Inr (letters 40, 1) \<and>
   length (trim (letters 40)) < 100 \<and> letters 40 \<noteq> [] \<and>
   modelCalls (newEvents empty_state (snd (run UploadFirst example_storage
     (example_world [[letters 40]] ''VALID_RESUME'' ''{}'')
     (example_request ''dark-modern'' None) empty_state))) = [] \<and>
   fst (run UploadFirst example_storage (example_world [[letters 40]] ''VALID_RESUME'' ''{}'')
     (example_request ''dark-modern'' None) empty_state) = Rejected TooShort \<and>
   parsePdfBuffer (example_world ([letters 120] # replicate 10 []) ''VALID_RESUME'' ''{}'')
     (file_bytes example_file) = Inr (letters 120 @ replicate 10 (CHR ''\<newline>''), 11) \<and>
   length (trim (letters 120 @ replicate 10 (CHR ''\<newline>''))) = 120 \<and> (11::nat) > 10 \<and>
   modelCalls (newEvents empty_state (snd (run RenderFirst example_storage
     (example_world ([letters 120] # replicate 10 []) ''VALID_RESUME'' ''{}'')
     (example_request ''dark-modern'' None) empty_state))) = [] \<and>
   fst (run RenderFirst example_storage
     (example_world ([letters 120] # replicate 10 []) ''VALID_RESUME'' ''{}'')
     (example_request ''dark-modern'' None) empty_state) = Rejected TooManyPages \<and>
   parsePdfBuffer (example_world [[]] ''VALID_RESUME'' ''{}'')
     (file_bytes example_file) = Inr ([], 1) \<and>
   length (trim []) < 100 \<and>
   fst (run UploadFirst example_storage (example_world [[]] ''VALID_RESUME'' ''{}'')
     (example_request ''dark-modern'' None) empty_state) = Rejected ExtractionFailed"
proof -
  let ?req = "example_request ''dark-modern'' None"
  have a: "\<And>pg. admitted (example_world pg ''VALID_RESUME'' ''{}'') ?req example_file"
    by (rule example_admitted)
  note A = short_or_many_pages_rejected_before_any_model_call[OF a example_parsePdfBuffer(1),
      of "letters 40" empty_state UploadFirst example_storage]
  note B = short_or_many_pages_rejected_before_any_model_call[OF a example_parse_eleven_pages,
      of 120 empty_state RenderFirst example_storage]
  note C = short_or_many_pages_rejected_before_any_model_call[OF a example_parsePdfBuffer(2),
      of empty_state UploadFirst example_storage]
  from A B C show ?thesis
    by (simp add: example_admitted example_parsePdfBuffer example_parse_eleven_pages
        trim_letters trim_trailing_newlines trim_Nil)
qed

text \<open>
  C2 as stated fails at a PDF with one page and no text run: the extracted text is empty,
  its trimmed length 0 is below 100, and the answer is status 500, not \<open>TooShort\<close>
  with status 400.
\<close>

theorem empty_text_is_extraction_failure:
  "parsePdfBuffer (example_world [[]] ''VALID_RESUME'' ''{}'') (file_bytes example_file) = Inr ([], 1) \<and>
   length (trim []) < 100 \<and>
   fst (POST UploadFirst example_env (example_world [[]] ''VALID_RESUME'' ''{}'')
          (example_request ''dark-modern'' None) empty_state)
     = Json_error ''Could not extract text from PDF.'' 500"
proof -
  have "fst (run UploadFirst example_storage
          (example_world [[]] ''VALID_RESUME'' ''{}'') (example_request ''dark-modern'' None) empty_state)
        = Rejected ExtractionFailed"
    using run_extraction_empty[OF example_admitted example_parsePdfBuffer(2)] by (metis fst_conv)
  then show ?thesis
    by (simp add: example_POST example_parsePdfBuffer trim_Nil)
qed


section \<open>Classification\<close>

text \<open>
  C1. For every request that reaches the classifier and every answer of the model, the
  request is rejected with \<open>NotAResume\<close> (status 400, nothing after the classifier's
  call) exactly when the trimmed answer does not contain \<open>VALID_RESUME\<close>; otherwise the
  handler goes on to the structuring call. Containment is that of a substring, it is the
  same for the answer and the trimmed answer, and the answer \<open>NOT_A_RESUME\<close> does not
  contain \<open>VALID_RESUME\<close>.
\<close>

theorem classification_accepts_iff_VALID_RESUME_occurs:
  assumes "reachesClassification v w req f resumeText pageCount"
    and "generateText w (ValidationPrompt (take 2000 resumeText)) = Inr validationResult"
  shows "(fst (run v sp w req s) = Rejected NotAResume)
           = (\<not> sublist ''VALID_RESUME'' (trim validationResult)) \<and>
         sublist ''VALID_RESUME'' (trim validationResult)
           = sublist ''VALID_RESUME'' validationResult \<and>
         (\<not> sublist ''VALID_RESUME'' (trim validationResult) \<longrightarrow>
            respond v (fst (run v sp w req s)) =
              Json_error ''The uploaded PDF doesn't appear to be a resume or CV. Please upload a valid resume document.'' 400 \<and>
            newEvents s (snd (run v sp w req s)) =
              admissionEvents req @ [ParsePdf, ModelCall (ValidationPrompt (take 2000 resumeText))]) \<and>
         (sublist ''VALID_RESUME'' (trim validationResult) \<longrightarrow>
            prefix (admissionEvents req @
                     [ParsePdf, ModelCall (ValidationPrompt (take 2000 resumeText)),
                      ModelCall (StructuringPrompt resumeText)])
                   (newEvents s (snd (run v sp w req s)))) \<and>
         \<not> sublist ''VALID_RESUME'' (trim ''NOT_A_RESUME'')"
proof -
  from run_upto_classification[OF assms(1), of s sp] obtain s2 where s2:
    "trace s2 = trace s @ admissionEvents req @ [ParsePdf]"
    "run v sp w req s =
             finish (andThen (classification w resumeText s2)
                  (\<lambda>u s4. andThen (structuring w resumeText s4)
                     (\<lambda>structuredData s5. persist v sp w req f structuredData s5)))"
    by blast
  let ?s3 = "logEvent (ModelCall (ValidationPrompt (take 2000 resumeText))) s2"
  show ?thesis
  proof (cases "sublist ''VALID_RESUME'' (trim validationResult)")
    case False
    then have "run v sp w req s = (Rejected NotAResume, ?s3)"
      by (simp add: s2 classification_result[OF assms(2)])
    with False s2(1) show ?thesis
      using sublist_trim[OF VALID_RESUME_no_ws, of validationResult]
      by (simp add: NOT_A_RESUME_rejected)
  next
    case True
    then have r: "run v sp w req s =
        finish (andThen (structuring w resumeText ?s3)
                  (\<lambda>structuredData s5. persist v sp w req f structuredData s5))"
      by (simp add: s2 classification_result[OF assms(2)])
    have nr: "fst (run v sp w req s) \<noteq> Rejected NotAResume"
      unfolding r by (rule after_structuring_not_Rejected)
    have "prefix (trace ?s3 @ [ModelCall (StructuringPrompt resumeText)])
            (trace (snd (run v sp w req s)))"
      unfolding r snd_finish by (rule after_structuring_prefix)
    then have "prefix (admissionEvents req @
                     [ParsePdf, ModelCall (ValidationPrompt (take 2000 resumeText)),
                      ModelCall (StructuringPrompt resumeText)])
                   (newEvents s (snd (run v sp w req s)))"
      by (intro prefix_newEvents) (simp add: s2(1))
    with True nr show ?thesis
      using sublist_trim[OF VALID_RESUME_no_ws, of validationResult]
      by (simp add: NOT_A_RESUME_rejected)
  qed
qed

theorem classification_accepts_witness:
  "reachesClassification UploadFirst
     (example_world [[letters 120]] '' Answer: VALID_RESUME.  '' ''{}'')
     (example_request ''dark-modern'' None) example_file (letters 120) 1 \<and>
   generateText (example_world [[letters 120]] '' Answer: VALID_RESUME.  '' ''{}'')
     (ValidationPrompt (take 2000 (letters 120))) = Inr '' Answer: VALID_RESUME.  '' \<and>
   sublist ''VALID_RESUME'' (trim '' Answer: VALID_RESUME.  '') \<and>
   fst (run UploadFirst example_storage
         (example_world [[letters 120]] '' Answer: VALID_RESUME.  '' ''{}'')
         (example_request ''dark-modern'' None) empty_state) \<noteq> Rejected NotAResume \<and>
   prefix (admissionEvents (example_request ''dark-modern'' None) @
            [ParsePdf, ModelCall (ValidationPrompt (take 2000 (letters 120))),
             ModelCall (StructuringPrompt (letters 120))])
     (newEvents empty_state (snd (run UploadFirst example_storage
         (example_world [[letters 120]] '' Answer: VALID_RESUME.  '' ''{}'')
         (example_request ''dark-modern'' None) empty_state))) \<and>
   reachesClassification RenderFirst
     (example_world [[letters 120]] ''NOT_A_RESUME'' ''{}'')
     (example_request ''dark-modern'' None) example_file (letters 120) 1 \<and>
   \<not> sublist ''VALID_RESUME'' (trim ''NOT_A_RESUME'') \<and>
   respond RenderFirst (fst (run RenderFirst example_storage
         (example_world [[letters 120]] ''NOT_A_RESUME'' ''{}'')
         (example_request ''dark-modern'' None) empty_state)) =
     Json_error ''The uploaded PDF doesn't appear to be a resume or CV. Please upload a valid resume document.'' 400 \<and>
   newEvents empty_state (snd (run RenderFirst example_storage
         (example_world [[letters 120]] ''NOT_A_RESUME'' ''{}'')
         (example_request ''dark-modern'' None) empty_state)) =
     admissionEvents (example_request ''dark-modern'' None) @
       [ParsePdf, ModelCall (ValidationPrompt (take 2000 (letters 120)))]"
proof -
  have rc: "reachesClassification UploadFirst
     (example_world [[letters 120]] '' Answer: VALID_RESUME.  '' ''{}'')
     (example_request ''dark-modern'' None) example_file (letters 120) (Suc 0)"
    by (rule example_reachesClassification) simp_all
  have g: "generateText (example_world [[letters 120]] '' Answer: VALID_RESUME.  '' ''{}'')
     (ValidationPrompt (take 2000 (letters 120))) = Inr '' Answer: VALID_RESUME.  ''"
    by simp
  have rc': "reachesClassification RenderFirst
     (example_world [[letters 120]] ''NOT_A_RESUME'' ''{}'')
     (example_request ''dark-modern'' None) example_file (letters 120) (Suc 0)"
    by (rule example_reachesClassification) simp_all
  have g': "generateText (example_world [[letters 120]] ''NOT_A_RESUME'' ''{}'')
     (ValidationPrompt (take 2000 (letters 120))) = Inr ''NOT_A_RESUME''"
    by simp
  from classification_accepts_iff_VALID_RESUME_occurs[OF rc g, of example_storage empty_state]
    classification_accepts_iff_VALID_RESUME_occurs[OF rc' g', of example_storage empty_state]
    rc g rc'
  show ?thesis by (simp add: sublist_VALID_wrapped NOT_A_RESUME_rejected)
qed

section \<open>The ceiling on the text length\<close>

text \<open>
  C4, as the code has it. For every request that passes the short-text and page-count
  checks, the request is rejected with \<open>TooLong\<close> exactly when the trimmed text is
  longer than the literal of its handler, 35000 in the first and 15000 in the second; the
  ceiling is read from no configuration, and changing the template of the request
  changes nothing.
\<close>

theorem too_long_iff_above_the_handler_constant:
  assumes "reachesPreValidation w req f resumeText pageCount"
    and "100 \<le> length (trim resumeText)" and "pageCount \<le> 10"
  shows "(fst (run v sp w req s) = Rejected TooLong)
           = (maxTextLength v < length (trim resumeText)) \<and>
         maxTextLength UploadFirst = 35000 \<and> maxTextLength RenderFirst = 15000 \<and>
         (fst (run v sp w (req\<lparr>form_template := tmpl\<rparr>) s) = Rejected TooLong)
           = (fst (run v sp w req s) = Rejected TooLong)"
proof -
  have "reachesPreValidation w (req\<lparr>form_template := tmpl\<rparr>) f resumeText pageCount"
    using assms(1) by (simp add: reachesPreValidation_def admitted_def clientId_def)
  from run_TooLong_iff[OF this assms(2,3)] run_TooLong_iff[OF assms]
  show ?thesis by simp
qed

theorem too_long_witness:
  "reachesPreValidation (example_world [[letters 20000]] ''VALID_RESUME'' ''{}'')
     (example_request ''dark-modern'' None) example_file (letters 20000) 1 \<and>
   100 \<le> length (trim (letters 20000)) \<and> (1::nat) \<le> 10 \<and>
   fst (run UploadFirst example_storage (example_world [[letters 20000]] ''VALID_RESUME'' ''{}'')
          (example_request ''dark-modern'' None) empty_state) \<noteq> Rejected TooLong \<and>
   fst (run RenderFirst example_storage (example_world [[letters 20000]] ''VALID_RESUME'' ''{}'')
          (example_request ''dark-modern'' None) empty_state) = Rejected TooLong"
proof -
  have r: "reachesPreValidation (example_world [[letters 20000]] ''VALID_RESUME'' ''{}'')
     (example_request ''dark-modern'' None) example_file (letters 20000) (Suc 0)"
    by (rule example_reachesPreValidation) simp
  have l: "100 \<le> length (trim (letters 20000))" by (simp add: trim_letters)
  have p: "Suc 0 \<le> 10" by simp
  from too_long_iff_above_the_handler_constant[OF r l p, of UploadFirst example_storage empty_state]
    too_long_iff_above_the_handler_constant[OF r l p, of RenderFirst example_storage empty_state]
    r l
  show ?thesis by (simp add: trim_letters)
qed

text \<open>
  C4 as stated asks for a ceiling that depends on the template. In each handler two
  templates have the same ceiling: 35001 characters are too long and 35000 are not in the
  first, 15001 are and 15000 are not in the second.
\<close>

theorem ceiling_same_for_every_template:
  "fst (run UploadFirst example_storage (example_world [[letters 35001]] ''VALID_RESUME'' ''{}'')
          (example_request ''elegant-serif'' None) empty_state) = Rejected TooLong \<and>
   fst (run UploadFirst example_storage (example_world [[letters 35001]] ''VALID_RESUME'' ''{}'')
          (example_request ''dark-modern'' None) empty_state) = Rejected TooLong \<and>
   fst (run UploadFirst example_storage (example_world [[letters 35000]] ''VALID_RESUME'' ''{}'')
          (example_request ''elegant-serif'' None) empty_state) \<noteq> Rejected TooLong \<and>
   fst (run UploadFirst example_storage (example_world [[letters 35000]] ''VALID_RESUME'' ''{}'')
          (example_request ''dark-modern'' None) empty_state) \<noteq> Rejected TooLong \<and>
   fst (run RenderFirst example_storage (example_world [[letters 15001]] ''VALID_RESUME'' ''{}'')
          (example_request ''elegant-serif'' None) empty_state) = Rejected TooLong \<and>
   fst (run RenderFirst example_storage (example_world [[letters 15001]] ''VALID_RESUME'' ''{}'')
          (example_request ''dark-modern'' None) empty_state) = Rejected TooLong \<and>
   fst (run RenderFirst example_storage (example_world [[letters 15000]] ''VALID_RESUME'' ''{}'')
          (example_request ''elegant-serif'' None) empty_state) \<noteq> Rejected TooLong \<and>
   fst (run RenderFirst example_storage (example_world [[letters 15000]] ''VALID_RESUME'' ''{}'')
          (example_request ''dark-modern'' None) empty_state) \<noteq> Rejected TooLong"
  by (simp add: example_TooLong_iff)

section \<open>The structuring answer\<close>



section \<open>The history of a client\<close>

text \<open>
  C6. After every history update, that is after every request that succeeds, the
  sequence stored under the client's key is the new record followed by the old sequence,
  cut to 10 entries: it has at most 10 entries, the new record is first, and when the
  old sequence had 10 entries the last of them, the oldest, is gone. No other key
  changes. Records inserted one after another into an empty history are stored last
  first, the ten latest of them.
\<close>

theorem history_capped_at_ten_newest_first:
  assumes "run v sp w req s = (Success url, s')"
  shows "length (redis_get s' (historyKey req)) \<le> 10 \<and>
         (\<exists>f. form_file req = Some f \<and>
            redis_get s' (historyKey req)
              = take 10 (mkRecord w req f url # redis_get s (historyKey req)) \<and>
            hd (redis_get s' (historyKey req)) = mkRecord w req f url \<and>
            (length (redis_get s (historyKey req)) = 10 \<longrightarrow>
               redis_get s' (historyKey req)
                 = mkRecord w req f url # butlast (redis_get s (historyKey req)))) \<and>
         (\<forall>k. k \<noteq> historyKey req \<longrightarrow> kv s' k = kv s k) \<and>
         (\<forall>rs. foldl (\<lambda>h r. updatedHistory r h) [] rs = take 10 (rev rs))"
proof -
  from run_Success_kv[OF assms] obtain f where f: "form_file req = Some f"
    and k: "kv s' = (kv s)(historyKey req \<mapsto>
        (updatedHistory (mkRecord w req f url) (redis_get s (historyKey req)), historyTTL))"
    by blast
  have g: "redis_get s' (historyKey req)
             = updatedHistory (mkRecord w req f url) (redis_get s (historyKey req))"
    by (simp add: redis_get_def k)
  have full: "length (redis_get s (historyKey req)) = 10 \<longrightarrow>
               redis_get s' (historyKey req)
                 = mkRecord w req f url # butlast (redis_get s (historyKey req))"
    by (simp add: g updatedHistory_full take9_butlast)
  have "length (redis_get s' (historyKey req)) \<le> 10"
    by (simp add: g updatedHistory_def)
  moreover have "redis_get s' (historyKey req)
              = take 10 (mkRecord w req f url # redis_get s (historyKey req))"
    by (simp add: g updatedHistory_def)
  moreover have "hd (redis_get s' (historyKey req)) = mkRecord w req f url"
    by (simp add: g updatedHistory_def take_Cons')
  moreover have "\<forall>k. k \<noteq> historyKey req \<longrightarrow> kv s' k = kv s k"
    by (simp add: k)
  ultimately show ?thesis using f full inserts_from_empty by blast
qed

theorem history_capped_witness:
  "fst (run UploadFirst example_storage (example_world [[letters 120]] ''VALID_RESUME'' ''{}'')
        (example_request ''dark-modern'' None) example_full_state)
     = Success ''/portfolios/portfolios/u1/index.html'' \<and>
   redis_get example_full_state ''portfolio:history:203.0.113.7'' = replicate 10 example_old_record \<and>
   length (redis_get (snd (run UploadFirst example_storage
        (example_world [[letters 120]] ''VALID_RESUME'' ''{}'')
        (example_request ''dark-modern'' None) example_full_state))
      ''portfolio:history:203.0.113.7'') \<le> 10 \<and>
   redis_get (snd (run UploadFirst example_storage
        (example_world [[letters 120]] ''VALID_RESUME'' ''{}'')
        (example_request ''dark-modern'' None) example_full_state))
      ''portfolio:history:203.0.113.7''
     = mkRecord (example_world [[letters 120]] ''VALID_RESUME'' ''{}'')
         (example_request ''dark-modern'' None) example_file ''/portfolios/portfolios/u1/index.html''
       # replicate 9 example_old_record"
proof -
  let ?w = "example_world [[letters 120]] ''VALID_RESUME'' ''{}''"
  let ?req = "example_request ''dark-modern'' None"
  let ?r = "run UploadFirst example_storage ?w ?req example_full_state"
  have e: "fst ?r = Success ''/portfolios/portfolios/u1/index.html''"
    by (rule example_run_success)
  then have "?r = (Success ''/portfolios/portfolios/u1/index.html'', snd ?r)"
    by (metis prod.collapse)
  note T = history_capped_at_ten_newest_first[OF this]
  have old: "redis_get example_full_state ''portfolio:history:203.0.113.7''
               = replicate 10 example_old_record"
    by (simp add: redis_get_def example_full_state_def)
  from T obtain f where f: "form_file ?req = Some f"
    and full: "length (redis_get example_full_state (historyKey ?req)) = 10 \<longrightarrow>
               redis_get (snd ?r) (historyKey ?req)
                 = mkRecord ?w ?req f ''/portfolios/portfolios/u1/index.html''
                   # butlast (redis_get example_full_state (historyKey ?req))"
    by blast
  from f have "f = example_file" by simp
  with full old have "redis_get (snd ?r) ''portfolio:history:203.0.113.7''
     = mkRecord ?w ?req example_file ''/portfolios/portfolios/u1/index.html''
       # replicate 9 example_old_record"
    by (simp add: butlast_conv_take)
  with T e old show ?thesis by simp
qed

text \<open>
  C7. Every history write gives the key an expiry of 30 days, 2592000 seconds, whatever
  expiry the key had before: a request that succeeds makes exactly one history write, with
  that expiry, and leaves the key with it; so does every history update taken by itself.
  Reading the history changes no expiry.
\<close>

theorem history_write_sets_thirty_day_expiry:
  assumes "run v sp w req s = (Success url, s')"
  shows "map_option snd (kv s' (historyKey req)) = Some 2592000 \<and>
         historyWrites (newEvents s s') = [HistoryWrite (historyKey req) 2592000] \<and>
         historyTTL = 30 * 24 * 60 * 60 \<and>
         (\<forall>w0 k r s0 u s1. historyUpdate w0 k r s0 = (Inr u, s1) \<longrightarrow>
            map_option snd (kv s1 k) = Some 2592000) \<and>
         (\<forall>w0 req0. kv (snd (snd (GET_history w0 req0 s'))) = kv s')"
proof -
  from run_Success_kv[OF assms] have "map_option snd (kv s' (historyKey req)) = Some 2592000"
    by (auto simp: historyTTL_def)
  moreover from run_Success_historyWrites[OF assms]
  have "historyWrites (newEvents s s') = [HistoryWrite (historyKey req) 2592000]"
    by (simp add: historyTTL_def)
  moreover have "historyTTL = 30 * 24 * 60 * 60" by (simp add: historyTTL_def)
  moreover have "\<forall>w0 k r s0 u s1. historyUpdate w0 k r s0 = (Inr u, s1) \<longrightarrow>
            map_option snd (kv s1 k) = Some 2592000"
    by (auto dest!: historyUpdate_Inr simp: historyTTL_def)
  moreover have "\<forall>w0 req0. kv (snd (snd (GET_history w0 req0 s'))) = kv s'"
    by (simp add: GET_history_def Let_def split: option.splits)
  ultimately show ?thesis by blast
qed

theorem history_expiry_witness:
  "fst (run RenderFirst example_storage (example_world [[letters 120]] ''VALID_RESUME'' ''{}'')
        (example_request ''dark-modern'' None) example_full_state)
     = Success ''/portfolios/portfolios/u1/index.html'' \<and>
   map_option snd (kv example_full_state ''portfolio:history:203.0.113.7'') = Some 5 \<and>
   map_option snd (kv (snd (run RenderFirst example_storage
        (example_world [[letters 120]] ''VALID_RESUME'' ''{}'')
        (example_request ''dark-modern'' None) example_full_state))
      ''portfolio:history:203.0.113.7'') = Some 2592000 \<and>
   historyWrites (newEvents example_full_state (snd (run RenderFirst example_storage
        (example_world [[letters 120]] ''VALID_RESUME'' ''{}'')
        (example_request ''dark-modern'' None) example_full_state)))
     = [HistoryWrite ''portfolio:history:203.0.113.7'' 2592000]"
proof -
  let ?w = "example_world [[letters 120]] ''VALID_RESUME'' ''{}''"
  let ?req = "example_request ''dark-modern'' None"
  let ?r = "run RenderFirst example_storage ?w ?req example_full_state"
  have e: "fst ?r = Success ''/portfolios/portfolios/u1/index.html''"
    by (rule example_run_success)
  then have "?r = (Success ''/portfolios/portfolios/u1/index.html'', snd ?r)"
    by (metis prod.collapse)
  note T = history_write_sets_thirty_day_expiry[OF this]
  from T[THEN conjunct1] T[THEN conjunct2, THEN conjunct1] e show ?thesis
    by (simp add: example_full_state_def)
qed

section \<open>The image and the page\<close>





section \<open>The extension of the profile image\<close>

text \<open>
  C8. The claim: the extension of the stored image comes from the uploaded file's name,
  and a name without an extension gets \<open>jpg\<close>. The code takes what follows the last dot
  of the name and falls back to \<open>jpg\<close> only when that is empty; a name with no dot at
  all is its own last piece. At the name \<open>photo\<close> the extension is \<open>photo\<close>, not
  \<open>jpg\<close>, and the image is stored as \<open>profile.photo\<close>.
\<close>

theorem imageExtension_name_without_dot:
  "imageExtension ''photo'' = ''photo'' \<and> imageExtension ''photo'' \<noteq> ''jpg'' \<and>
   uploads (newEvents empty_state (snd (run UploadFirst example_storage
        (example_world [[letters 120]] ''VALID_RESUME'' ''{}'')
        (example_request ''dark-modern'' (Some (example_image ''photo''))) empty_state)))
   = [Upload ''portfolios/u1/assets/profile.photo'' (Bytes ''PNG'') ''image/png'',
      Upload ''portfolios/u1/index.html'' (Html ''<html></html>'') ''text/html'',
      Upload ''portfolios/u1/metadata.json''
        (JsonDoc (mkMetadata example_storage (example_world [[letters 120]] ''VALID_RESUME'' ''{}'')
           (example_request ''dark-modern'' (Some (example_image ''photo''))) example_file
           [''profile.photo''])) ''application/json'']"
proof -
  let ?w = "example_world [[letters 120]] ''VALID_RESUME'' ''{}''"
  let ?req = "example_request ''dark-modern'' (Some (example_image ''photo''))"
  have rp: "reachesPersistence UploadFirst ?w ?req example_file (letters 120) (Suc 0) (JObj [])"
    by (rule example_reachesPersistence) simp_all
  from run_upto_persistence[OF rp, of empty_state example_storage] obtain s4 where s4:
    "trace s4 = trace empty_state @ admissionEvents ?req @
             [ParsePdf, ModelCall (ValidationPrompt (take 2000 (letters 120))),
              ModelCall (StructuringPrompt (letters 120))]"
    "run UploadFirst example_storage ?w ?req empty_state
       = finish (persist UploadFirst example_storage ?w ?req example_file (JObj []) s4)"
    by blast
  let ?s' = "snd (persistUploadFirst example_storage ?w ?req example_file (JObj []) s4)"
  have p: "prefix (trace s4) (trace ?s')" by (rule persistUploadFirst_prefix)
  then obtain evs where evs: "trace ?s' = trace s4 @ evs" by (auto simp: prefix_def)
  with example_UploadFirst_uploads[of s4 "[[letters 120]]" "''VALID_RESUME''" "''{}''"]
  have "uploads evs =
     [Upload ''portfolios/u1/assets/profile.photo'' (Bytes ''PNG'') ''image/png'',
      Upload ''portfolios/u1/index.html'' (Html ''<html></html>'') ''text/html'',
      Upload ''portfolios/u1/metadata.json''
        (JsonDoc (mkMetadata example_storage ?w ?req example_file [''profile.photo'']))
        ''application/json'']" by simp
  with evs s4 show ?thesis
    by (simp add: newEvents_def empty_state_def admissionEvents_def imageExtension_photo)
qed


section \<open>The rate limiter's gate\<close>

text \<open>
  The limiter is configured as \<open>Ratelimit.slidingWindow(5, "1 m")\<close> and lives in the
  key-value service; the handler sees only whether \<open>ratelimit.limit(identifier)\<close>
  succeeded. When it did not, the request ends at once with status 429: nothing but the
  limiter has been called.
\<close>

lemma rate_limited_request_stops_at_once:
  assumes "ratelimit_limit w (clientId req) = Inr False"
  shows "run v sp w req s = (Rejected TooManyRequests, logEvent (RateLimit (clientId req)) s) \<and>
         respond v (Rejected TooManyRequests)
           = Json_error ''Too many requests. Please try again later.'' 429"
  using assms by (simp add: run_def admission_def Let_def)

end
